theory Spec2Isabelle
  imports Main "HOL-Library.Word" "HOL-Library.AList"
begin

section \<open>Gossip dissemination core of the mesh router (router/gossip.go)\<close>

subsection \<open>Go control flow: returning, blocking, panicking\<close>

text \<open>
  A Go call either returns, blocks forever on a channel operation, or panics.
  Every function of the source that operates on a channel gives an \<open>outcome\<close>.
\<close>

datatype 'a outcome = Returns 'a | Blocks | Panics

fun bind_outcome :: "'a outcome \<Rightarrow> ('a \<Rightarrow> 'b outcome) \<Rightarrow> 'b outcome" where
  "bind_outcome (Returns x) f = f x"
| "bind_outcome Blocks f = Blocks"
| "bind_outcome Panics f = Panics"

subsection \<open>Go channels of capacity one\<close>

text \<open>
  \<open>sender.cell\<close> is a \<open>chan GossipData\<close>. Before \<open>Start\<close> it is the nil channel;
  \<open>Start\<close> makes a channel of capacity 1; \<open>Stop\<close> closes it. \<open>Chan b c\<close> is a made
  channel whose buffer holds \<open>b\<close> (at most one value) and that is closed iff \<open>c\<close>.
\<close>

datatype 'a chan = NilChan | Chan "'a option" bool

text \<open>
  A receive that does not wait, as the \<open>case pending := <-sender.cell\<close> of a
  \<open>select\<close> with a \<open>default\<close>: a buffered value is taken (also from a closed
  channel); a closed and empty channel yields the zero value (nil); a nil or an open
  and empty channel is not ready.
\<close>

datatype 'a recv = Received 'a "'a chan" | ReceivedZero | NotReady

fun try_recv :: "'a chan \<Rightarrow> 'a recv" where
  "try_recv NilChan = NotReady"
| "try_recv (Chan (Some v) c) = Received v (Chan None c)"
| "try_recv (Chan None True) = ReceivedZero"
| "try_recv (Chan None False) = NotReady"

text \<open>
  \<open>ch <- v\<close>: blocks forever on a nil channel, panics on a closed one, blocks while
  the buffer is full (nothing but the worker takes from it, and the caller is not the
  worker), and otherwise stores the value.
\<close>

fun chan_send :: "'a chan \<Rightarrow> 'a \<Rightarrow> 'a chan outcome" where
  "chan_send NilChan v = Blocks"
| "chan_send (Chan b True) v = Panics"
| "chan_send (Chan (Some u) False) v = Blocks"
| "chan_send (Chan None False) v = Returns (Chan (Some v) False)"

text \<open>\<open>close(ch)\<close>: panics on a nil channel and on a closed channel.\<close>

fun chan_close :: "'a chan \<Rightarrow> 'a chan outcome" where
  "chan_close NilChan = Panics"
| "chan_close (Chan b True) = Panics"
| "chan_close (Chan b False) = Returns (Chan b True)"

subsection \<open>Wire data\<close>

type_synonym uint32 = "32 word"
type_synonym bytes = "8 word list"

text \<open>
  \<open>PeerName\<close>, \<open>Peer\<close>, \<open>Connection\<close> and \<open>ProtocolTag\<close> are declared outside
  gossip.go. The code only compares peer names, uses connections as map keys and as
  targets of \<open>SendProtocolMsg\<close>, and switches on three tags; they are opaque
  identifiers here. \<open>ProtocolOther\<close> stands for every tag of the overlay that is not
  one of the three gossip tags.
\<close>

datatype PeerName = PeerName nat
datatype Peer = Peer nat
datatype Connection = Connection nat

datatype ProtocolTag =
    ProtocolGossip
  | ProtocolGossipUnicast
  | ProtocolGossipBroadcast
  | ProtocolOther nat

text \<open>
  Modelled from the spec: \<open>GobEncode\<close> and the gob decoder are not in gossip.go. The
  spec says only that a frame is a sequence of self-describing fields, decoded one
  field at a time. A frame is the list of its fields; \<open>GobEncode\<close> writes the fields in
  the order of its arguments; a \<open>gob.Decoder\<close> is the list of fields not yet read, and
  \<open>Decode\<close> into a variable of some type fails unless the next field has that type
  (a frame that is too short or malformed fails there).
\<close>

datatype gobval = GobUint32 uint32 | GobPeerName PeerName | GobBytes bytes

type_synonym frame = "gobval list"
type_synonym Decoder = "gobval list"

definition GobEncode :: "gobval list \<Rightarrow> frame" where
  "GobEncode items = items"

definition NewDecoder :: "frame \<Rightarrow> Decoder" where
  "NewDecoder payload = payload"

datatype error =
    DecodeError
  | UnknownChannel uint32
  | OtherError string

fun Decode_uint32 :: "Decoder \<Rightarrow> error + (uint32 \<times> Decoder)" where
  "Decode_uint32 (GobUint32 v # rest) = Inr (v, rest)"
| "Decode_uint32 _ = Inl DecodeError"

fun Decode_PeerName :: "Decoder \<Rightarrow> error + (PeerName \<times> Decoder)" where
  "Decode_PeerName (GobPeerName v # rest) = Inr (v, rest)"
| "Decode_PeerName _ = Inl DecodeError"

fun Decode_bytes :: "Decoder \<Rightarrow> error + (bytes \<times> Decoder)" where
  "Decode_bytes (GobBytes v # rest) = Inr (v, rest)"
| "Decode_bytes _ = Inl DecodeError"

record ProtocolMsg =
  tag :: ProtocolTag
  msg :: frame

subsection \<open>GossipSender\<close>

text \<open>
  A \<open>GossipData\<close> value in Go is a reference to an object that \<open>Merge\<close> updates in
  place, and the same object can be handed to several senders. So the objects live in
  a store, \<open>objs :: nat \<Rightarrow> 'd\<close>, from addresses to contents: a \<open>GossipData\<close> value is an
  address (never nil), and \<open>'d\<close> is the type of the contents. The two methods are
  parameters of the functions that call them: \<open>Merge x y\<close> is the content of the
  receiver after \<open>pending.Merge(data)\<close>, where \<open>x\<close> and \<open>y\<close> are the contents of
  \<open>pending\<close> and of \<open>data\<close> before the call; \<open>Encode :: 'd \<Rightarrow> bytes\<close>.

  \<open>send\<close> is the function given to \<open>NewGossipSender\<close>; what it does is the one call of
  \<open>SendProtocolMsg\<close> it makes, given as the connection and the message, and it depends
  on the content its argument has when it is called. The cell holds the address of the
  pending object.
\<close>

record 'd GossipSender =
  send :: "'d \<Rightarrow> Connection \<times> ProtocolMsg"
  cell :: "nat chan"

definition NewGossipSender :: "('d \<Rightarrow> Connection \<times> ProtocolMsg) \<Rightarrow> 'd GossipSender" where
  "NewGossipSender f = \<lparr>send = f, cell = NilChan\<rparr>"

text \<open>\<open>Start\<close> makes the channel; the worker it spawns is \<open>run_pass\<close> below.\<close>

definition Start :: "'d GossipSender \<Rightarrow> 'd GossipSender" where
  "Start sender = sender\<lparr>cell := Chan None False\<rparr>"

text \<open>
  One pass of the \<open>for\<close> loop of \<open>run\<close>, the worker: it waits while the cell is empty,
  leaves the loop on the zero value of a closed cell, and otherwise takes the pending
  object out of the cell and calls \<open>send\<close> on it, which encodes the content the object
  has then.
\<close>

datatype 'd pass = Sent "Connection \<times> ProtocolMsg" "'d GossipSender" | Waits | Exits

definition run_pass :: "'d GossipSender \<Rightarrow> (nat \<Rightarrow> 'd) \<Rightarrow> 'd pass" where
  "run_pass sender objs =
     (case try_recv (cell sender) of
        Received pending ch \<Rightarrow> Sent (send sender (objs pending)) (sender\<lparr>cell := ch\<rparr>)
      | ReceivedZero \<Rightarrow> Exits
      | NotReady \<Rightarrow> Waits)"

text \<open>
  \<open>Send\<close>: the \<open>select\<close> takes the pending object if there is one, merges \<open>data\<close> into
  it in place and puts the same object back; otherwise (\<open>default\<close>) it puts the
  caller's object \<open>data\<close> itself. On a closed and empty cell the receive yields nil and
  \<open>pending.Merge\<close> panics. The worker only takes from the cell, so a pass of the worker
  between the steps of one \<open>Send\<close> finds the cell empty and waits: \<open>Send\<close> is one step.
\<close>

definition Send ::
    "('d \<Rightarrow> 'd \<Rightarrow> 'd) \<Rightarrow> 'd GossipSender \<Rightarrow> nat \<Rightarrow> (nat \<Rightarrow> 'd)
     \<Rightarrow> ('d GossipSender \<times> (nat \<Rightarrow> 'd)) outcome" where
  "Send Merge sender data objs =
     (case try_recv (cell sender) of
        Received pending ch \<Rightarrow>
          (let objs1 = objs(pending := Merge (objs pending) (objs data))
           in bind_outcome (chan_send ch pending)
                (\<lambda>ch'. Returns (sender\<lparr>cell := ch'\<rparr>, objs1)))
      | ReceivedZero \<Rightarrow> Panics
      | NotReady \<Rightarrow>
          bind_outcome (chan_send (cell sender) data)
            (\<lambda>ch'. Returns (sender\<lparr>cell := ch'\<rparr>, objs)))"

definition Stop :: "'d GossipSender \<Rightarrow> 'd GossipSender outcome" where
  "Stop sender =
     bind_outcome (chan_close (cell sender)) (\<lambda>ch'. Returns (sender\<lparr>cell := ch'\<rparr>))"

subsection \<open>The overlay, as gossip.go reads it\<close>

text \<open>
  \<open>LocalPeer\<close> and \<open>Router\<close> are declared outside gossip.go. A \<open>LocalPeer\<close> here is
  what the overlay answers at the time of a call: \<open>ourself.Name\<close>,
  \<open>ourself.Connections()\<close>, \<open>ourself.ConnectionTo(name)\<close>,
  \<open>ourself.NextBroadcastHops(peer)\<close>, \<open>ourself.Router.Routes.Unicast(name)\<close> and
  \<open>ourself.Router.Peers.Fetch(name)\<close>; a lookup that reports \<open>found == false\<close> is
  \<open>None\<close>. Every connection the overlay hands out is a \<open>ProtocolSender\<close>.
\<close>

record LocalPeer =
  Name :: PeerName
  Connections :: "Connection list"
  ConnectionTo :: "PeerName \<Rightarrow> Connection option"
  NextBroadcastHops :: "Peer \<Rightarrow> Connection list"
  Routes_Unicast :: "PeerName \<Rightarrow> PeerName option"
  Peers_Fetch :: "PeerName \<Rightarrow> Peer option"

text \<open>
  A \<open>Gossiper\<close> is user code: an object with a state of its own (\<open>'g\<close>) and the four
  methods of the interface, each a function of that state that gives its results and
  the next state. An \<open>error\<close> result of \<open>None\<close> is Go's nil error; a \<open>GossipData\<close>
  result of \<open>None\<close> is nil, and one of \<open>Some d\<close> is a new object with content \<open>d\<close>,
  which the caller of the method places in the store (\<open>new_object\<close>).
\<close>

record ('g, 'd) Gossiper =
  state :: 'g
  OnGossipUnicast :: "'g \<Rightarrow> PeerName \<Rightarrow> bytes \<Rightarrow> error option \<times> 'g"
  OnGossipBroadcast :: "'g \<Rightarrow> bytes \<Rightarrow> error option \<times> 'g"
  Gossip :: "'g \<Rightarrow> 'd \<times> 'g"
  OnGossip :: "'g \<Rightarrow> bytes \<Rightarrow> ('d option \<times> error option) \<times> 'g"

definition call_OnGossipUnicast ::
    "('g, 'd) Gossiper \<Rightarrow> PeerName \<Rightarrow> bytes \<Rightarrow> error option \<times> ('g, 'd) Gossiper" where
  "call_OnGossipUnicast g sender m =
     (case OnGossipUnicast g (state g) sender m of (err, st) \<Rightarrow> (err, g\<lparr>state := st\<rparr>))"

definition call_OnGossipBroadcast ::
    "('g, 'd) Gossiper \<Rightarrow> bytes \<Rightarrow> error option \<times> ('g, 'd) Gossiper" where
  "call_OnGossipBroadcast g m =
     (case OnGossipBroadcast g (state g) m of (err, st) \<Rightarrow> (err, g\<lparr>state := st\<rparr>))"

definition call_OnGossip ::
    "('g, 'd) Gossiper \<Rightarrow> bytes \<Rightarrow> ('d option \<times> error option) \<times> ('g, 'd) Gossiper" where
  "call_OnGossip g buf =
     (case OnGossip g (state g) buf of (r, st) \<Rightarrow> (r, g\<lparr>state := st\<rparr>))"

subsection \<open>GossipChannel\<close>

text \<open>
  \<open>senderMap\<close> is \<open>map[Connection]*GossipSender\<close>: an association list with each key
  once, whose values are pointers. A pointer is \<open>None\<close> (nil) or \<open>Some a\<close>, the
  sender at index \<open>a\<close> of the heap. The mutex of the channel is not modelled: each
  function below is one critical section, run to its end.
\<close>

type_synonym ptr = "nat option"
type_synonym senderMap = "(Connection \<times> ptr) list"

record ('g, 'd) GossipChannel =
  ourself :: LocalPeer
  name :: string
  hash :: uint32
  gossiper :: "('g, 'd) Gossiper"
  senders :: senderMap

text \<open>
  What the functions of gossip.go change outside the channel: the heap of
  \<open>GossipSender\<close> objects (a sender dropped from \<open>senders\<close> stays there, as its
  worker still holds it), the store of \<open>GossipData\<close> objects with the next unused
  address, the calls of \<open>SendProtocolMsg\<close> made so far, oldest first, and the
  lines logged so far.
\<close>

datatype logarg = LogString string | LogPeerName PeerName

record 'd world =
  heap :: "'d GossipSender list"
  objects :: "nat \<Rightarrow> 'd"
  fresh :: nat
  wire :: "(Connection \<times> ProtocolMsg) list"
  logged :: "logarg list list"

definition SendProtocolMsg :: "Connection \<Rightarrow> ProtocolMsg \<Rightarrow> 'd world \<Rightarrow> 'd world" where
  "SendProtocolMsg conn m w = w\<lparr>wire := wire w @ [(conn, m)]\<rparr>"

definition log :: "('g, 'd) GossipChannel \<Rightarrow> logarg list \<Rightarrow> 'd world \<Rightarrow> 'd world" where
  "log c args w = w\<lparr>logged := logged w @ [LogString (''[gossip '' @ name c @ '']:'') # args]\<rparr>"

text \<open>
  A method call through a pointer to a sender: a nil pointer panics. An address outside
  the heap does not occur in Go; the model panics there too.
\<close>

definition on_sender ::
    "('d GossipSender \<Rightarrow> (nat \<Rightarrow> 'd) \<Rightarrow> ('d GossipSender \<times> (nat \<Rightarrow> 'd)) outcome)
     \<Rightarrow> ptr \<Rightarrow> 'd world \<Rightarrow> 'd world outcome" where
  "on_sender f p w =
     (case p of
        None \<Rightarrow> Panics
      | Some a \<Rightarrow>
          if a < length (heap w)
          then bind_outcome (f (heap w ! a) (objects w))
                 (\<lambda>(s, objs). Returns (w\<lparr>heap := (heap w)[a := s], objects := objs\<rparr>))
          else Panics)"

text \<open>
  A new \<open>GossipData\<close> object with the given content, at the next unused address.
\<close>

definition new_object :: "'d \<Rightarrow> 'd world \<Rightarrow> nat \<times> 'd world" where
  "new_object d w = (fresh w, w\<lparr>objects := (objects w)(fresh w := d), fresh := Suc (fresh w)\<rparr>)"

definition relayGossipUnicast ::
    "('g, 'd) GossipChannel \<Rightarrow> PeerName \<Rightarrow> frame \<Rightarrow> 'd world \<Rightarrow> error option \<times> 'd world" where
  "relayGossipUnicast c dstPeerName m w =
     (None,
      (case Routes_Unicast (ourself c) dstPeerName of
         None \<Rightarrow>
           log c [LogString ''unknown relay destination:'', LogPeerName dstPeerName] w
       | Some relayPeerName \<Rightarrow>
           (case ConnectionTo (ourself c) relayPeerName of
              None \<Rightarrow>
                log c [LogString ''unable to find connection to relay peer'',
                       LogPeerName relayPeerName] w
            | Some conn \<Rightarrow>
                SendProtocolMsg conn \<lparr>tag = ProtocolGossipUnicast, msg = m\<rparr> w)))"

definition relayGossipBroadcast ::
    "('g, 'd) GossipChannel \<Rightarrow> PeerName \<Rightarrow> frame \<Rightarrow> 'd world \<Rightarrow> error option \<times> 'd world" where
  "relayGossipBroadcast c srcName m w =
     (None,
      (case Peers_Fetch (ourself c) srcName of
         None \<Rightarrow>
           log c [LogString ''unable to relay broadcast from unknown peer'',
                  LogPeerName srcName] w
       | Some srcPeer \<Rightarrow>
           (let protocolMsg = \<lparr>tag = ProtocolGossipBroadcast, msg = m\<rparr>
            in foldl (\<lambda>w' conn. SendProtocolMsg conn protocolMsg w') w
                 (NextBroadcastHops (ourself c) srcPeer))))"

definition GossipUnicast ::
    "('g, 'd) GossipChannel \<Rightarrow> PeerName \<Rightarrow> bytes \<Rightarrow> 'd world \<Rightarrow> error option \<times> 'd world" where
  "GossipUnicast c dstPeerName buf w =
     relayGossipUnicast c dstPeerName
       (GobEncode [GobUint32 (hash c), GobPeerName (Name (ourself c)),
                   GobPeerName dstPeerName, GobBytes buf]) w"

definition GossipBroadcast ::
    "('g, 'd) GossipChannel \<Rightarrow> bytes \<Rightarrow> 'd world \<Rightarrow> error option \<times> 'd world" where
  "GossipBroadcast c buf w =
     relayGossipBroadcast c (Name (ourself c))
       (GobEncode [GobUint32 (hash c), GobPeerName (Name (ourself c)), GobBytes buf]) w"

text \<open>
  \<open>sendGossipDown\<close>: if the connection has no sender, one is allocated with the
  closure as its \<open>send\<close>, stored in the map and started. Then \<open>sender.Send(data)\<close>.
\<close>

definition sendGossipDown ::
    "('d \<Rightarrow> 'd \<Rightarrow> 'd) \<Rightarrow> ('d \<Rightarrow> bytes) \<Rightarrow> ('g, 'd) GossipChannel \<Rightarrow> Connection \<Rightarrow> nat
     \<Rightarrow> 'd world \<Rightarrow> (('g, 'd) GossipChannel \<times> 'd world) outcome" where
  "sendGossipDown Merge Encode c conn data w =
     (case map_of (senders c) conn of
        Some sender \<Rightarrow>
          bind_outcome (on_sender (\<lambda>s. Send Merge s data) sender w) (\<lambda>w'. Returns (c, w'))
      | None \<Rightarrow>
          (let a = length (heap w);
               w1 = w\<lparr>heap := heap w @
                      [NewGossipSender (\<lambda>pending.
                         (conn, \<lparr>tag = ProtocolGossip,
                                 msg = GobEncode [GobUint32 (hash c),
                                                  GobPeerName (Name (ourself c)),
                                                  GobBytes (Encode pending)]\<rparr>))]\<rparr>;
               c1 = c\<lparr>senders := AList.update conn (Some a) (senders c)\<rparr>;
               w2 = w1\<lparr>heap := (heap w1)[a := Start (heap w1 ! a)]\<rparr>
           in bind_outcome (on_sender (\<lambda>s. Send Merge s data) (Some a) w2)
                (\<lambda>w'. Returns (c1, w'))))"

definition SendGossipDown ::
    "('d \<Rightarrow> 'd \<Rightarrow> 'd) \<Rightarrow> ('d \<Rightarrow> bytes) \<Rightarrow> ('g, 'd) GossipChannel \<Rightarrow> Connection \<Rightarrow> nat
     \<Rightarrow> 'd world \<Rightarrow> (('g, 'd) GossipChannel \<times> 'd world) outcome" where
  "SendGossipDown Merge Encode c conn data w = sendGossipDown Merge Encode c conn data w"

text \<open>
  The first loop of \<open>SendGossip\<close>, over the snapshot of the connections:
  \<open>c.senders[conn]\<close> read for \<open>retainedSenders\<close> is nil when the key is missing.
\<close>

fun SendGossip_loop ::
    "('d \<Rightarrow> 'd \<Rightarrow> 'd) \<Rightarrow> ('d \<Rightarrow> bytes) \<Rightarrow> nat \<Rightarrow> Connection list \<Rightarrow> ('g, 'd) GossipChannel
     \<Rightarrow> senderMap \<Rightarrow> 'd world \<Rightarrow> (('g, 'd) GossipChannel \<times> senderMap \<times> 'd world) outcome" where
  "SendGossip_loop Merge Encode data [] c retainedSenders w = Returns (c, retainedSenders, w)"
| "SendGossip_loop Merge Encode data (conn # conns) c retainedSenders w =
     bind_outcome (sendGossipDown Merge Encode c conn data w)
       (\<lambda>(c1, w1).
          SendGossip_loop Merge Encode data conns
            (c1\<lparr>senders := AList.delete conn (senders c1)\<rparr>)
            (AList.update conn (case map_of (senders c1) conn of None \<Rightarrow> None | Some p \<Rightarrow> p)
               retainedSenders)
            w1)"

text \<open>The second loop: \<open>Stop\<close> on every sender left in \<open>c.senders\<close>.\<close>

fun Stop_all :: "ptr list \<Rightarrow> 'd world \<Rightarrow> 'd world outcome" where
  "Stop_all [] w = Returns w"
| "Stop_all (sender # rest) w =
     bind_outcome
       (on_sender (\<lambda>s objs. bind_outcome (Stop s) (\<lambda>s'. Returns (s', objs))) sender w)
       (Stop_all rest)"

definition SendGossip ::
    "('d \<Rightarrow> 'd \<Rightarrow> 'd) \<Rightarrow> ('d \<Rightarrow> bytes) \<Rightarrow> ('g, 'd) GossipChannel \<Rightarrow> nat \<Rightarrow> 'd world
     \<Rightarrow> (('g, 'd) GossipChannel \<times> 'd world) outcome" where
  "SendGossip Merge Encode c data w =
     (let connections = Connections (ourself c)
      in bind_outcome (SendGossip_loop Merge Encode data connections c [] w)
           (\<lambda>(c1, retainedSenders, w1).
              bind_outcome (Stop_all (map snd (senders c1)) w1)
                (\<lambda>w2. Returns (c1\<lparr>senders := retainedSenders\<rparr>, w2))))"

text \<open>
  The state of the sender behind a pointer: \<open>running\<close> when it has been started and not
  stopped (its cell is an open channel), \<open>stopped\<close> when its cell has been closed.
  \<open>senders_ok\<close> is what \<open>sendGossipDown\<close> and \<open>SendGossip\<close> keep true of a channel
  created by \<open>NewGossip\<close>: the map has each connection once, and its values point to
  senders of the heap that are running and all different.
\<close>

definition running :: "'d world \<Rightarrow> ptr \<Rightarrow> bool" where
  "running w p =
     (case p of
        None \<Rightarrow> False
      | Some a \<Rightarrow>
          a < length (heap w) \<and>
          (case cell (heap w ! a) of NilChan \<Rightarrow> False | Chan b closed \<Rightarrow> \<not> closed))"

definition stopped :: "'d world \<Rightarrow> ptr \<Rightarrow> bool" where
  "stopped w p =
     (case p of
        None \<Rightarrow> False
      | Some a \<Rightarrow>
          a < length (heap w) \<and>
          (case cell (heap w ! a) of NilChan \<Rightarrow> False | Chan b closed \<Rightarrow> closed))"

definition senders_ok :: "('g, 'd) GossipChannel \<Rightarrow> 'd world \<Rightarrow> bool" where
  "senders_ok c w \<longleftrightarrow>
     distinct (map fst (senders c)) \<and> distinct (map snd (senders c))
     \<and> list_all (running w) (map snd (senders c))"

text \<open>
  What the first loop of \<open>SendGossip\<close> keeps true of the senders still in
  \<open>c.senders\<close> (\<open>S\<close>) and those moved to \<open>retainedSenders\<close> (\<open>R\<close>): each map has
  each connection once, and all their values point to different running senders.
\<close>

definition loop_ok :: "senderMap \<Rightarrow> senderMap \<Rightarrow> 'd world \<Rightarrow> bool" where
  "loop_ok S R w \<longleftrightarrow>
     distinct (map fst S) \<and> distinct (map fst R) \<and> distinct (map snd S @ map snd R)
     \<and> list_all (running w) (map snd S @ map snd R)"

text \<open>
  What happens to the senders over time: calls of \<open>Send\<close> on the sender at some
  address of the heap (serialised by the caller), interleaved with passes of the
  workers. A pass of the worker of sender \<open>a\<close> that takes an object hands the message
  to the connection; a pass that finds nothing to take changes nothing.
\<close>

datatype event = SendCall nat nat | WorkerPass nat

definition worker_pass :: "nat \<Rightarrow> 'd world \<Rightarrow> 'd world" where
  "worker_pass a w =
     (if a < length (heap w)
      then (case run_pass (heap w ! a) (objects w) of
              Sent m s \<Rightarrow> w\<lparr>heap := (heap w)[a := s], wire := wire w @ [m]\<rparr>
            | Waits \<Rightarrow> w
            | Exits \<Rightarrow> w)
      else w)"

fun run_events :: "('d \<Rightarrow> 'd \<Rightarrow> 'd) \<Rightarrow> 'd world \<Rightarrow> event list \<Rightarrow> 'd world outcome" where
  "run_events Merge w [] = Returns w"
| "run_events Merge w (SendCall a data # es) =
     bind_outcome (on_sender (\<lambda>s. Send Merge s data) (Some a) w)
       (\<lambda>w'. run_events Merge w' es)"
| "run_events Merge w (WorkerPass a # es) = run_events Merge (worker_pass a w) es"

text \<open>
  The spec's words for the content of a mailbox: the merge, in the order sent, of all
  values sent since the worker last drained it. \<open>since_drain a ds es\<close> lists the
  objects put into the mailbox of sender \<open>a\<close> and not taken out: those of \<open>ds\<close>, pending
  at the start, and those of the calls of \<open>es\<close> on \<open>a\<close>, up to the last pass of its
  worker. \<open>merged\<close> merges the contents that the objects of such a list have in a store
  (none for the empty list). \<open>sent_data\<close> lists the objects that the calls hand over.
\<close>

fun since_drain :: "nat \<Rightarrow> nat list \<Rightarrow> event list \<Rightarrow> nat list" where
  "since_drain a ds [] = ds"
| "since_drain a ds (SendCall a' d # es) = since_drain a (if a' = a then ds @ [d] else ds) es"
| "since_drain a ds (WorkerPass a' # es) = since_drain a (if a' = a then [] else ds) es"

fun merged :: "('d \<Rightarrow> 'd \<Rightarrow> 'd) \<Rightarrow> (nat \<Rightarrow> 'd) \<Rightarrow> nat list \<Rightarrow> 'd option" where
  "merged Merge objs [] = None"
| "merged Merge objs (p # ps) = Some (foldl (\<lambda>v q. Merge v (objs q)) (objs p) ps)"

fun sent_data :: "event list \<Rightarrow> nat list" where
  "sent_data [] = []"
| "sent_data (SendCall a d # es) = d # sent_data es"
| "sent_data (WorkerPass a # es) = sent_data es"

fun senders_of :: "event list \<Rightarrow> nat list" where
  "senders_of [] = []"
| "senders_of (SendCall a d # es) = a # senders_of es"
| "senders_of (WorkerPass a # es) = a # senders_of es"

text \<open>
  The mailbox of the sender at address \<open>a\<close>, seen by content: its cell, with the
  pending object replaced by the content the object has in the store.
\<close>

definition mailbox :: "'d world \<Rightarrow> nat \<Rightarrow> 'd chan" where
  "mailbox w a =
     (case cell (heap w ! a) of
        NilChan \<Rightarrow> NilChan
      | Chan b c \<Rightarrow> Chan (map_option (objects w) b) c)"

text \<open>
  What a run of \<open>Send\<close> calls and worker passes keeps true when no object is handed
  over twice: \<open>pend a\<close> lists the objects put into the mailbox of sender \<open>a\<close> since
  its worker last took one, \<open>used\<close> holds every object handed over so far, and
  \<open>objs0\<close> is the store at the start. Each of the \<open>n\<close> senders is running, its cell
  holds the first object of \<open>pend a\<close>, whose content is the merge of the contents the
  objects of \<open>pend a\<close> had at the start; objects not handed over are unchanged; and no
  object is pending in two mailboxes.
\<close>

definition mailboxes_inv ::
    "('d \<Rightarrow> 'd \<Rightarrow> 'd) \<Rightarrow> (nat \<Rightarrow> 'd) \<Rightarrow> nat \<Rightarrow> 'd world \<Rightarrow> (nat \<Rightarrow> nat list) \<Rightarrow> nat set \<Rightarrow> bool" where
  "mailboxes_inv Merge objs0 n w pend used \<longleftrightarrow>
     length (heap w) = n
     \<and> (\<forall>a<n. cell (heap w ! a) = Chan (case pend a of [] \<Rightarrow> None | p # ps \<Rightarrow> Some p) False)
     \<and> (\<forall>a<n. \<forall>p ps. pend a = p # ps \<longrightarrow>
            objects w p = foldl (\<lambda>v q. Merge v (objs0 q)) (objs0 p) ps)
     \<and> (\<forall>x. x \<notin> used \<longrightarrow> objects w x = objs0 x)
     \<and> (\<forall>a<n. set (pend a) \<subseteq> used)
     \<and> (\<forall>a<n. \<forall>a'<n. a \<noteq> a' \<longrightarrow> set (pend a) \<inter> set (pend a') = {})"

subsection \<open>Inbound delivery\<close>

definition deliverGossipUnicast ::
    "('g, 'd) GossipChannel \<Rightarrow> PeerName \<Rightarrow> frame \<Rightarrow> Decoder \<Rightarrow> 'd world
     \<Rightarrow> error option \<times> ('g, 'd) GossipChannel \<times> 'd world" where
  "deliverGossipUnicast c srcName origPayload dec w =
     (case Decode_PeerName dec of
        Inl err \<Rightarrow> (Some err, c, w)
      | Inr (destName, dec1) \<Rightarrow>
          if Name (ourself c) \<noteq> destName
          then (case relayGossipUnicast c destName origPayload w of (err, w1) \<Rightarrow> (err, c, w1))
          else
            (case Decode_bytes dec1 of
               Inl err \<Rightarrow> (Some err, c, w)
             | Inr (payload, dec2) \<Rightarrow>
                 (case call_OnGossipUnicast (gossiper c) srcName payload of
                    (err, g) \<Rightarrow> (err, c\<lparr>gossiper := g\<rparr>, w))))"

definition deliverGossipBroadcast ::
    "('g, 'd) GossipChannel \<Rightarrow> PeerName \<Rightarrow> frame \<Rightarrow> Decoder \<Rightarrow> 'd world
     \<Rightarrow> error option \<times> ('g, 'd) GossipChannel \<times> 'd world" where
  "deliverGossipBroadcast c srcName origPayload dec w =
     (case Decode_bytes dec of
        Inl err \<Rightarrow> (Some err, c, w)
      | Inr (payload, dec1) \<Rightarrow>
          (case call_OnGossipBroadcast (gossiper c) payload of
             (Some err, g) \<Rightarrow> (Some err, c\<lparr>gossiper := g\<rparr>, w)
           | (None, g) \<Rightarrow>
               (case relayGossipBroadcast (c\<lparr>gossiper := g\<rparr>) srcName origPayload w of
                  (err, w1) \<Rightarrow> (err, c\<lparr>gossiper := g\<rparr>, w1))))"

definition deliverGossip ::
    "('d \<Rightarrow> 'd \<Rightarrow> 'd) \<Rightarrow> ('d \<Rightarrow> bytes) \<Rightarrow> ('g, 'd) GossipChannel \<Rightarrow> PeerName \<Rightarrow> frame \<Rightarrow> Decoder
     \<Rightarrow> 'd world \<Rightarrow> (error option \<times> ('g, 'd) GossipChannel \<times> 'd world) outcome" where
  "deliverGossip Merge Encode c srcName origPayload dec w =
     (case Decode_bytes dec of
        Inl err \<Rightarrow> Returns (Some err, c, w)
      | Inr (payload, dec1) \<Rightarrow>
          (case call_OnGossip (gossiper c) payload of
             ((d, Some err), g) \<Rightarrow> Returns (Some err, c\<lparr>gossiper := g\<rparr>, w)
           | ((Some d, None), g) \<Rightarrow>
               (case new_object d w of
                  (data, w0) \<Rightarrow>
                    bind_outcome (SendGossip Merge Encode (c\<lparr>gossiper := g\<rparr>) data w0)
                      (\<lambda>(c1, w1). Returns (None, c1, w1)))
           | ((None, None), g) \<Rightarrow> Returns (None, c\<lparr>gossiper := g\<rparr>, w)))"

subsection \<open>Router: the registry of channels and the dispatcher\<close>

text \<open>
  \<open>GossipChannels\<close> is \<open>map[uint32]*GossipChannel\<close>. Only the functions reached
  through the registry change a channel, so the registry holds the channel itself and
  \<open>put_channel\<close> writes back what a deliver routine changed in it. \<open>hash\<close>, the
  function from channel names to hashes, is declared outside gossip.go and is the
  parameter \<open>hash_of\<close>.
\<close>

record ('g, 'd) Router =
  Ourself :: LocalPeer
  GossipChannels :: "(uint32 \<times> ('g, 'd) GossipChannel) list"

definition NewGossip ::
    "(string \<Rightarrow> uint32) \<Rightarrow> ('g, 'd) Router \<Rightarrow> string \<Rightarrow> ('g, 'd) Gossiper
     \<Rightarrow> ('g, 'd) Router \<times> ('g, 'd) GossipChannel" where
  "NewGossip hash_of router channelName g =
     (let channelHash = hash_of channelName;
          channel = \<lparr>ourself = Ourself router, name = channelName, hash = channelHash,
                     gossiper = g, senders = []\<rparr>
      in (router\<lparr>GossipChannels := AList.update channelHash channel (GossipChannels router)\<rparr>,
          channel))"

definition put_channel ::
    "('g, 'd) Router \<Rightarrow> uint32 \<Rightarrow> ('g, 'd) GossipChannel \<Rightarrow> ('g, 'd) Router" where
  "put_channel router h c =
     router\<lparr>GossipChannels := AList.update h c (GossipChannels router)\<rparr>"

definition handleGossip ::
    "('d \<Rightarrow> 'd \<Rightarrow> 'd) \<Rightarrow> ('d \<Rightarrow> bytes) \<Rightarrow> ('g, 'd) Router \<Rightarrow> ProtocolTag \<Rightarrow> frame \<Rightarrow> 'd world
     \<Rightarrow> (error option \<times> ('g, 'd) Router \<times> 'd world) outcome" where
  "handleGossip Merge Encode router t payload w =
     (let decoder = NewDecoder payload
      in case Decode_uint32 decoder of
           Inl err \<Rightarrow> Returns (Some err, router, w)
         | Inr (channelHash, dec1) \<Rightarrow>
             (case map_of (GossipChannels router) channelHash of
                None \<Rightarrow> Returns (Some (UnknownChannel channelHash), router, w)
              | Some channel \<Rightarrow>
                  (case Decode_PeerName dec1 of
                     Inl err \<Rightarrow> Returns (Some err, router, w)
                   | Inr (srcName, dec2) \<Rightarrow>
                       (case t of
                          ProtocolGossipUnicast \<Rightarrow>
                            (case deliverGossipUnicast channel srcName payload dec2 w of
                               (err, c1, w1) \<Rightarrow>
                                 Returns (err, put_channel router channelHash c1, w1))
                        | ProtocolGossipBroadcast \<Rightarrow>
                            (case deliverGossipBroadcast channel srcName payload dec2 w of
                               (err, c1, w1) \<Rightarrow>
                                 Returns (err, put_channel router channelHash c1, w1))
                        | ProtocolGossip \<Rightarrow>
                            bind_outcome
                              (deliverGossip Merge Encode channel srcName payload dec2 w)
                              (\<lambda>(err, c1, w1).
                                 Returns (err, put_channel router channelHash c1, w1))
                        | ProtocolOther n \<Rightarrow> Returns (None, router, w)))))"

text \<open>
  The header of a frame as \<open>handleGossip\<close> reads it: the channel hash, then the name
  of the source peer.
\<close>

definition header_of :: "frame \<Rightarrow> (uint32 \<times> PeerName) option" where
  "header_of payload =
     (case Decode_uint32 (NewDecoder payload) of
        Inl err \<Rightarrow> None
      | Inr (channelHash, dec1) \<Rightarrow>
          (case Decode_PeerName dec1 of
             Inl err \<Rightarrow> None
           | Inr (srcName, dec2) \<Rightarrow> Some (channelHash, srcName)))"

text \<open>
  A sequence of registrations: \<open>NewGossip\<close> called for each name and gossiper in turn,
  giving the router after the last call and the channels the calls returned, in order.
\<close>

fun register_all ::
    "(string \<Rightarrow> uint32) \<Rightarrow> ('g, 'd) Router \<Rightarrow> (string \<times> ('g, 'd) Gossiper) list
     \<Rightarrow> ('g, 'd) Router \<times> ('g, 'd) GossipChannel list" where
  "register_all hash_of router [] = (router, [])"
| "register_all hash_of router ((channelName, g) # regs) =
     (case NewGossip hash_of router channelName g of
        (router1, channel) \<Rightarrow>
          (case register_all hash_of router1 regs of
             (router2, channels) \<Rightarrow> (router2, channel # channels)))"

subsection \<open>A small mesh to run the functions on\<close>

text \<open>
  Peer 1 with two connections: peer 3 is routed through peer 2 (connection 10), peer 4
  through peer 5, to which there is no connection, and no other peer has a route. The
  gossip data are numbers merged by \<open>max\<close> and encoded in one byte; the gossiper
  rejects empty messages, and a number larger than its state is new to it: it is the
  delta, and the state grows by it.
\<close>

definition ex_peer :: LocalPeer where
  "ex_peer =
     \<lparr>Name = PeerName 1,
      Connections = [Connection 10, Connection 20],
      ConnectionTo = (\<lambda>p. if p = PeerName 2 then Some (Connection 10) else None),
      NextBroadcastHops = (\<lambda>p. if p = Peer 7 then [Connection 10, Connection 20] else []),
      Routes_Unicast = (\<lambda>p. if p = PeerName 3 then Some (PeerName 2)
                             else if p = PeerName 4 then Some (PeerName 5) else None),
      Peers_Fetch = (\<lambda>p. if p = PeerName 7 then Some (Peer 7) else None)\<rparr>"

definition ex_Encode :: "nat \<Rightarrow> bytes" where
  "ex_Encode d = [of_nat d]"

definition ex_gossiper :: "(nat, nat) Gossiper" where
  "ex_gossiper =
     \<lparr>state = 5,
      OnGossipUnicast = (\<lambda>st src m. if m = [] then (Some (OtherError ''empty''), st) else (None, st)),
      OnGossipBroadcast = (\<lambda>st m. if m = [] then (Some (OtherError ''empty''), st) else (None, st)),
      Gossip = (\<lambda>st. (st, st)),
      OnGossip = (\<lambda>st buf.
        (case buf of
           [] \<Rightarrow> ((None, Some (OtherError ''empty'')), st)
         | b # bs \<Rightarrow>
             if st < unat b then ((Some (unat b), None), st + unat b) else ((None, None), st)))\<rparr>"

definition ex_channel :: "(nat, nat) GossipChannel" where
  "ex_channel =
     \<lparr>ourself = ex_peer, name = ''topology'', hash = 99, gossiper = ex_gossiper, senders = []\<rparr>"

definition ex_world :: "nat world" where
  "ex_world = \<lparr>heap = [], objects = (\<lambda>a. 0), fresh = 0, wire = [], logged = []\<rparr>"

definition ex_send :: "nat \<Rightarrow> Connection \<times> ProtocolMsg" where
  "ex_send d = (Connection 10, \<lparr>tag = ProtocolGossip, msg = [GobBytes (ex_Encode d)]\<rparr>)"

text \<open>
  Two started senders with empty mailboxes, and five \<open>GossipData\<close> objects.
\<close>

definition ex_world2 :: "nat world" where
  "ex_world2 =
     \<lparr>heap = [Start (NewGossipSender ex_send), Start (NewGossipSender ex_send)],
      objects = (\<lambda>a. 0)(0 := 5, 1 := 9, 2 := 7, 3 := 4, 4 := 8),
      fresh = 5, wire = [], logged = []\<rparr>"

definition ex_hash :: "string \<Rightarrow> uint32" where
  "ex_hash s = of_nat (length s)"

definition ex_router :: "(nat, nat) Router" where
  "ex_router = \<lparr>Ourself = ex_peer, GossipChannels = [(99, ex_channel)]\<rparr>"

section \<open>Properties\<close>

subsection \<open>Evaluation of the model on concrete inputs\<close>

lemmas eval_defs =
  relayGossipUnicast_def relayGossipBroadcast_def SendProtocolMsg_def log_def
  GossipUnicast_def GossipBroadcast_def GobEncode_def NewDecoder_def
  call_OnGossipUnicast_def call_OnGossipBroadcast_def call_OnGossip_def
  deliverGossipUnicast_def deliverGossipBroadcast_def deliverGossip_def
  SendGossip_def sendGossipDown_def on_sender_def Send_def Stop_def Start_def
  NewGossipSender_def run_pass_def handleGossip_def put_channel_def NewGossip_def
  header_of_def new_object_def worker_pass_def mailbox_def SendGossipDown_def

lemmas ex_defs =
  ex_channel_def ex_peer_def ex_world_def ex_gossiper_def ex_Encode_def ex_router_def

lemma foldl_SendProtocolMsg:
  "foldl (\<lambda>w' conn. SendProtocolMsg conn m w') w conns =
     w\<lparr>wire := wire w @ map (\<lambda>conn. (conn, m)) conns\<rparr>"
  by (induction conns arbitrary: w) (simp_all add: SendProtocolMsg_def)

subsection \<open>C1: Send coalesces into the single-slot mailbox\<close>

lemma Send_running:
  "cell sender = Chan b False \<Longrightarrow>
   Send Merge sender data objs =
     Returns (sender\<lparr>cell := Chan (Some (case b of None \<Rightarrow> data | Some p \<Rightarrow> p)) False\<rparr>,
              (case b of None \<Rightarrow> objs | Some p \<Rightarrow> objs(p := Merge (objs p) (objs data))))"
  by (cases b) (simp_all add: Send_def)

lemma run_pass_running:
  "cell sender = Chan b False \<Longrightarrow>
   run_pass sender objs =
     (case b of None \<Rightarrow> Waits
      | Some p \<Rightarrow> Sent (send sender (objs p)) (sender\<lparr>cell := Chan None False\<rparr>))"
  by (cases b) (simp_all add: run_pass_def)

lemma inv_Send_empty:
  assumes inv: "mailboxes_inv Merge objs0 n w pend used"
    and a: "a < n" and d: "d \<notin> used" and e: "pend a = []"
  shows "\<exists>w'. on_sender (\<lambda>s. Send Merge s d) (Some a) w = Returns w'
           \<and> mailboxes_inv Merge objs0 n w' (pend(a := pend a @ [d])) (insert d used)"
proof -
  from inv a e have c: "cell (heap w ! a) = Chan None False" and len: "length (heap w) = n"
    by (auto simp: mailboxes_inv_def)
  let ?s = "(heap w ! a)\<lparr>cell := Chan (Some d) False\<rparr>"
  let ?w = "w\<lparr>heap := (heap w)[a := ?s], objects := objects w\<rparr>"
  have r: "on_sender (\<lambda>s. Send Merge s d) (Some a) w = Returns ?w"
    using a len Send_running [OF c, of Merge d "objects w"] by (simp add: on_sender_def)
  have "mailboxes_inv Merge objs0 n ?w (pend(a := pend a @ [d])) (insert d used)"
    unfolding mailboxes_inv_def
  proof (intro conjI allI impI)
    show "length (heap ?w) = n" using len by simp
  next
    fix a' assume "a' < n"
    then show "cell (heap ?w ! a') =
        Chan (case (pend(a := pend a @ [d])) a' of [] \<Rightarrow> None | p # ps \<Rightarrow> Some p) False"
      using inv len e by (cases "a' = a") (auto simp: mailboxes_inv_def)
  next
    fix a' p ps assume a': "a' < n" and p: "(pend(a := pend a @ [d])) a' = p # ps"
    show "objects ?w p = foldl (\<lambda>v q. Merge v (objs0 q)) (objs0 p) ps"
    proof (cases "a' = a")
      case True
      with p e have "p = d" "ps = []" by auto
      with inv d show ?thesis by (simp add: mailboxes_inv_def)
    next
      case False
      with p have "pend a' = p # ps" by simp
      with inv a' show ?thesis by (simp add: mailboxes_inv_def)
    qed
  next
    fix x assume "x \<notin> insert d used"
    with inv show "objects ?w x = objs0 x" by (simp add: mailboxes_inv_def)
  next
    fix a' assume "a' < n"
    with inv have "set (pend a') \<subseteq> used" by (simp add: mailboxes_inv_def)
    then show "set ((pend(a := pend a @ [d])) a') \<subseteq> insert d used"
      using e by auto
  next
    fix a1 a2 assume h: "a1 < n" "a2 < n" "a1 \<noteq> a2"
    with inv have s1: "set (pend a1) \<subseteq> used" and s2: "set (pend a2) \<subseteq> used"
      and dj: "set (pend a1) \<inter> set (pend a2) = {}"
      by (simp_all add: mailboxes_inv_def)
    show "set ((pend(a := pend a @ [d])) a1) \<inter> set ((pend(a := pend a @ [d])) a2) = {}"
      using h s1 s2 dj d e by (cases "a1 = a"; cases "a2 = a") auto
  qed
  with r show ?thesis by blast
qed

lemma inv_Send_pending:
  assumes inv: "mailboxes_inv Merge objs0 n w pend used"
    and a: "a < n" and d: "d \<notin> used" and e: "pend a = p # ps"
  shows "\<exists>w'. on_sender (\<lambda>s. Send Merge s d) (Some a) w = Returns w'
           \<and> mailboxes_inv Merge objs0 n w' (pend(a := pend a @ [d])) (insert d used)"
proof -
  from inv a e have c: "cell (heap w ! a) = Chan (Some p) False" and len: "length (heap w) = n"
    by (auto simp: mailboxes_inv_def)
  from inv a e have pu: "p \<in> used" by (auto simp: mailboxes_inv_def)
  with d have pd: "p \<noteq> d" by blast
  from inv a e have cp: "objects w p = foldl (\<lambda>v q. Merge v (objs0 q)) (objs0 p) ps"
    by (simp add: mailboxes_inv_def)
  from inv d have cd: "objects w d = objs0 d" by (simp add: mailboxes_inv_def)
  let ?s = "(heap w ! a)\<lparr>cell := Chan (Some p) False\<rparr>"
  let ?o = "(objects w)(p := Merge (objects w p) (objects w d))"
  let ?w = "w\<lparr>heap := (heap w)[a := ?s], objects := ?o\<rparr>"
  have r: "on_sender (\<lambda>s. Send Merge s d) (Some a) w = Returns ?w"
    using a len Send_running [OF c, of Merge d "objects w"] by (simp add: on_sender_def)
  have "mailboxes_inv Merge objs0 n ?w (pend(a := pend a @ [d])) (insert d used)"
    unfolding mailboxes_inv_def
  proof (intro conjI allI impI)
    show "length (heap ?w) = n" using len by simp
  next
    fix a' assume "a' < n"
    then show "cell (heap ?w ! a') =
        Chan (case (pend(a := pend a @ [d])) a' of [] \<Rightarrow> None | p # ps \<Rightarrow> Some p) False"
      using inv len e by (cases "a' = a") (auto simp: mailboxes_inv_def)
  next
    fix a' p' ps' assume a': "a' < n" and p': "(pend(a := pend a @ [d])) a' = p' # ps'"
    show "objects ?w p' = foldl (\<lambda>v q. Merge v (objs0 q)) (objs0 p') ps'"
    proof (cases "a' = a")
      case True
      with p' e have "p' = p" "ps' = ps @ [d]" by auto
      with cp cd show ?thesis by simp
    next
      case False
      with p' have q: "pend a' = p' # ps'" by simp
      from inv a a' False have "set (pend a) \<inter> set (pend a') = {}"
        by (simp add: mailboxes_inv_def)
      with e q have "p' \<noteq> p" by auto
      moreover from inv a' q have "objects w p' = foldl (\<lambda>v q. Merge v (objs0 q)) (objs0 p') ps'"
        by (simp add: mailboxes_inv_def)
      ultimately show ?thesis by simp
    qed
  next
    fix x assume x: "x \<notin> insert d used"
    with pu have "x \<noteq> p" by blast
    with inv x show "objects ?w x = objs0 x" by (simp add: mailboxes_inv_def)
  next
    fix a' assume "a' < n"
    with inv have "set (pend a') \<subseteq> used" by (simp add: mailboxes_inv_def)
    moreover from inv a have "set (pend a) \<subseteq> used" by (simp add: mailboxes_inv_def)
    ultimately show "set ((pend(a := pend a @ [d])) a') \<subseteq> insert d used"
      by auto
  next
    fix a1 a2 assume h: "a1 < n" "a2 < n" "a1 \<noteq> a2"
    with inv have s1: "set (pend a1) \<subseteq> used" and s2: "set (pend a2) \<subseteq> used"
      and dj: "set (pend a1) \<inter> set (pend a2) = {}"
      by (simp_all add: mailboxes_inv_def)
    show "set ((pend(a := pend a @ [d])) a1) \<inter> set ((pend(a := pend a @ [d])) a2) = {}"
      using h s1 s2 dj d by (cases "a1 = a"; cases "a2 = a") auto
  qed
  with r show ?thesis by blast
qed

lemma inv_Send:
  assumes "mailboxes_inv Merge objs0 n w pend used" and "a < n" and "d \<notin> used"
  shows "\<exists>w'. on_sender (\<lambda>s. Send Merge s d) (Some a) w = Returns w'
           \<and> mailboxes_inv Merge objs0 n w' (pend(a := pend a @ [d])) (insert d used)"
  using inv_Send_empty [OF assms] inv_Send_pending [OF assms] by (cases "pend a") blast+

lemma inv_worker_pass:
  assumes inv: "mailboxes_inv Merge objs0 n w pend used" and a: "a < n"
  shows "mailboxes_inv Merge objs0 n (worker_pass a w) (pend(a := [])) used"
proof -
  from inv have len: "length (heap w) = n" by (simp add: mailboxes_inv_def)
  from inv a have c: "cell (heap w ! a) =
      Chan (case pend a of [] \<Rightarrow> None | p # ps \<Rightarrow> Some p) False"
    by (simp add: mailboxes_inv_def)
  have h: "heap (worker_pass a w) = (heap w)[a := (heap w ! a)\<lparr>cell := Chan None False\<rparr>]"
  proof (cases "pend a")
    case Nil
    with c have "(heap w ! a)\<lparr>cell := Chan None False\<rparr> = heap w ! a" by simp
    moreover have "worker_pass a w = w"
      using a len run_pass_running [OF c, of "objects w"] Nil by (simp add: worker_pass_def)
    ultimately show ?thesis by simp
  next
    case (Cons p ps)
    then show ?thesis
      using a len run_pass_running [OF c, of "objects w"] by (simp add: worker_pass_def)
  qed
  have o: "objects (worker_pass a w) = objects w"
    using a len run_pass_running [OF c, of "objects w"]
    by (cases "pend a") (simp_all add: worker_pass_def)
  show ?thesis
    unfolding mailboxes_inv_def h o
  proof (intro conjI allI impI)
    show "length ((heap w)[a := (heap w ! a)\<lparr>cell := Chan None False\<rparr>]) = n"
      using len by simp
  next
    fix a' assume "a' < n"
    then show "cell ((heap w)[a := (heap w ! a)\<lparr>cell := Chan None False\<rparr>] ! a') =
        Chan (case (pend(a := [])) a' of [] \<Rightarrow> None | p # ps \<Rightarrow> Some p) False"
      using inv len by (cases "a' = a") (auto simp: mailboxes_inv_def)
  next
    fix a' p ps assume "a' < n" and "(pend(a := [])) a' = p # ps"
    with inv show "objects w p = foldl (\<lambda>v q. Merge v (objs0 q)) (objs0 p) ps"
      by (cases "a' = a") (auto simp: mailboxes_inv_def)
  next
    fix x assume "x \<notin> used"
    with inv show "objects w x = objs0 x" by (simp add: mailboxes_inv_def)
  next
    fix a' assume "a' < n"
    with inv have "set (pend a') \<subseteq> used" by (simp add: mailboxes_inv_def)
    then show "set ((pend(a := [])) a') \<subseteq> used" by auto
  next
    fix a1 a2 assume h: "a1 < n" "a2 < n" "a1 \<noteq> a2"
    with inv have "set (pend a1) \<inter> set (pend a2) = {}"
      by (simp add: mailboxes_inv_def)
    then show "set ((pend(a := [])) a1) \<inter> set ((pend(a := [])) a2) = {}"
      by auto
  qed
qed

lemma run_events_inv:
  "mailboxes_inv Merge objs0 n w pend used \<Longrightarrow> distinct (sent_data es) \<Longrightarrow>
   set (sent_data es) \<inter> used = {} \<Longrightarrow> list_all (\<lambda>a. a < n) (senders_of es) \<Longrightarrow>
   \<exists>w'. run_events Merge w es = Returns w'
      \<and> mailboxes_inv Merge objs0 n w' (\<lambda>a. since_drain a (pend a) es)
            (used \<union> set (sent_data es))"
proof (induction es arbitrary: w pend used)
  case Nil
  then show ?case by simp
next
  case (Cons e es)
  show ?case
  proof (cases e)
    case (SendCall a d)
    with Cons.prems have a: "a < n" and d: "d \<notin> used" and dd: "d \<notin> set (sent_data es)"
      and dis: "distinct (sent_data es)" and disj: "set (sent_data es) \<inter> used = {}"
      and rest: "list_all (\<lambda>a. a < n) (senders_of es)"
      by auto
    from inv_Send [OF Cons.prems(1) a d] obtain w1 where
      1: "on_sender (\<lambda>s. Send Merge s d) (Some a) w = Returns w1"
      and 2: "mailboxes_inv Merge objs0 n w1 (pend(a := pend a @ [d])) (insert d used)"
      by blast
    from dd disj have "set (sent_data es) \<inter> insert d used = {}" by auto
    from Cons.IH [OF 2 dis this rest] obtain w' where
      3: "run_events Merge w1 es = Returns w'"
      and 4: "mailboxes_inv Merge objs0 n w'
                (\<lambda>a'. since_drain a' ((pend(a := pend a @ [d])) a') es)
                (insert d used \<union> set (sent_data es))"
      by blast
    have f: "(\<lambda>a'. since_drain a' ((pend(a := pend a @ [d])) a') es)
               = (\<lambda>a'. since_drain a' (pend a') (e # es))"
      using SendCall by (auto simp: fun_eq_iff)
    have u: "insert d used \<union> set (sent_data es) = used \<union> set (sent_data (e # es))"
      using SendCall by auto
    from 1 3 4 SendCall show ?thesis
      unfolding f u by simp
  next
    case (WorkerPass a)
    with Cons.prems have a: "a < n"
      and dis: "distinct (sent_data es)" and disj: "set (sent_data es) \<inter> used = {}"
      and rest: "list_all (\<lambda>a. a < n) (senders_of es)"
      by auto
    note 2 = inv_worker_pass [OF Cons.prems(1) a]
    from Cons.IH [OF 2 dis disj rest] obtain w' where
      3: "run_events Merge (worker_pass a w) es = Returns w'"
      and 4: "mailboxes_inv Merge objs0 n w'
                (\<lambda>a'. since_drain a' ((pend(a := [])) a') es) (used \<union> set (sent_data es))"
      by blast
    have f: "(\<lambda>a'. since_drain a' ((pend(a := [])) a') es)
               = (\<lambda>a'. since_drain a' (pend a') (e # es))"
      using WorkerPass by (auto simp: fun_eq_iff)
    have u: "used \<union> set (sent_data es) = used \<union> set (sent_data (e # es))"
      using WorkerPass by auto
    from 3 4 WorkerPass show ?thesis
      unfolding f u by simp
  qed
qed

lemma mailboxes_inv_start:
  "list_all (\<lambda>s. cell s = Chan None False) (heap w) \<Longrightarrow>
   mailboxes_inv Merge (objects w) (length (heap w)) w (\<lambda>a. []) {}"
  by (simp add: mailboxes_inv_def list_all_length)

lemma mailboxes_inv_mailbox:
  assumes "mailboxes_inv Merge objs0 n w pend used" and "a < n"
  shows "cell (heap w ! a) = Chan (case pend a of [] \<Rightarrow> None | p # ps \<Rightarrow> Some p) False"
    and "mailbox w a = Chan (merged Merge objs0 (pend a)) False"
proof -
  show c: "cell (heap w ! a) = Chan (case pend a of [] \<Rightarrow> None | p # ps \<Rightarrow> Some p) False"
    using assms by (simp add: mailboxes_inv_def)
  show "mailbox w a = Chan (merged Merge objs0 (pend a)) False"
  proof (cases "pend a")
    case Nil
    with c show ?thesis by (simp add: mailbox_def)
  next
    case (Cons p ps)
    with assms have "objects w p = foldl (\<lambda>v q. Merge v (objs0 q)) (objs0 p) ps"
      by (simp add: mailboxes_inv_def)
    with c Cons show ?thesis by (simp add: mailbox_def)
  qed
qed

text \<open>
  C1, as the claim states it, fails twice. \<open>Send\<close> on a sender that was never started
  blocks for ever: its cell is the nil channel, the \<open>select\<close> falls to \<open>default\<close>, and
  the send on a nil channel never returns. And a mailbox can hold more than was sent to
  it: \<open>Send\<close> keeps the caller's object in the cell and merges into it in place, so
  when one object has been handed to two senders, as \<open>SendGossip\<close> hands its \<open>data\<close> to
  the sender of every connection, a later \<open>Send\<close> to the first sender changes what the
  mailbox of the second holds. Below, object 0 (content 5) goes to both senders and
  object 1 (content 9) to sender 0 only; the mailbox of sender 1 then holds 9, while
  the merge of what was sent to it is 5. The same through \<open>SendGossip\<close> followed by
  \<open>SendGossipDown\<close> on one connection.
\<close>

theorem Send_coalesces_counterexample:
  "Send max (NewGossipSender ex_send) 0 (objects ex_world2) = Blocks
   \<and> (case run_events max ex_world2 [SendCall 0 0, SendCall 1 0, SendCall 0 1] of
         Returns w' \<Rightarrow> mailbox w' 1
       | Blocks \<Rightarrow> NilChan
       | Panics \<Rightarrow> NilChan) = Chan (Some 9) False
   \<and> since_drain 1 [] [SendCall 0 0, SendCall 1 0, SendCall 0 1] = [0]
   \<and> merged max (objects ex_world2) [0] = Some 5
   \<and> (case SendGossip max ex_Encode ex_channel 0 (ex_world2\<lparr>heap := []\<rparr>) of
         Returns (c1, w1) \<Rightarrow>
           (case SendGossipDown max ex_Encode c1 (Connection 10) 1 w1 of
              Returns (c2, w2) \<Rightarrow> map (mailbox w1) [0, 1] @ map (mailbox w2) [0, 1]
            | Blocks \<Rightarrow> []
            | Panics \<Rightarrow> [])
       | Blocks \<Rightarrow> []
       | Panics \<Rightarrow> [])
       = [Chan (Some 5) False, Chan (Some 5) False, Chan (Some 9) False, Chan (Some 9) False]"
  by (simp add: eval_defs ex_world2_def ex_channel_def ex_peer_def)

text \<open>
  C1, amended. On a sender that has been started and not stopped (its cell is an open
  channel holding \<open>b\<close>), \<open>Send\<close> returns: it neither blocks nor panics. If the
  mailbox was empty, it now holds the object \<open>data\<close>; if it held \<open>pending\<close>, it holds
  the same object, whose content is now that of \<open>pending.Merge(data)\<close>, and no other
  object has changed. Hence, for senders started with empty mailboxes, any sequence of
  serialised \<open>Send\<close> calls in which no object is handed over twice, interleaved in any
  way with passes of the workers, returns and leaves every cell open with at most one
  pending object: the first one sent to that sender since its worker last took one,
  whose content is the merge, in the order sent, of the contents of all objects sent to
  that sender since then. What the mailboxes hold when an object is shared between
  senders or sent twice is left open.
\<close>

theorem Send_coalesces_when_running:
  "(cell sender = Chan b False \<longrightarrow>
      Send Merge sender data objs =
        Returns (sender\<lparr>cell := Chan (Some (case b of None \<Rightarrow> data | Some pending \<Rightarrow> pending)) False\<rparr>,
                 (case b of None \<Rightarrow> objs
                  | Some pending \<Rightarrow> objs(pending := Merge (objs pending) (objs data)))))
   \<and> (list_all (\<lambda>s. cell s = Chan None False) (heap w)
        \<and> list_all (\<lambda>a. a < length (heap w)) (senders_of es)
        \<and> distinct (sent_data es) \<longrightarrow>
      (\<exists>w'. run_events Merge w es = Returns w'
         \<and> length (heap w') = length (heap w)
         \<and> (\<forall>a<length (heap w).
               cell (heap w' ! a) =
                 Chan (case since_drain a [] es of [] \<Rightarrow> None | p # ps \<Rightarrow> Some p) False
               \<and> mailbox w' a = Chan (merged Merge (objects w) (since_drain a [] es)) False)))"
proof (intro conjI impI)
  assume "cell sender = Chan b False"
  then show "Send Merge sender data objs =
        Returns (sender\<lparr>cell := Chan (Some (case b of None \<Rightarrow> data | Some pending \<Rightarrow> pending)) False\<rparr>,
                 (case b of None \<Rightarrow> objs
                  | Some pending \<Rightarrow> objs(pending := Merge (objs pending) (objs data))))"
    by (rule Send_running)
next
  assume h: "list_all (\<lambda>s. cell s = Chan None False) (heap w)
        \<and> list_all (\<lambda>a. a < length (heap w)) (senders_of es)
        \<and> distinct (sent_data es)"
  then have i: "mailboxes_inv Merge (objects w) (length (heap w)) w (\<lambda>a. []) {}"
    by (simp add: mailboxes_inv_start)
  from h run_events_inv [OF i, of es] obtain w' where
    r: "run_events Merge w es = Returns w'"
    and j: "mailboxes_inv Merge (objects w) (length (heap w)) w' (\<lambda>a. since_drain a [] es)
              ({} \<union> set (sent_data es))"
    by auto
  from j have "length (heap w') = length (heap w)" by (simp add: mailboxes_inv_def)
  with r mailboxes_inv_mailbox [OF j]
  show "\<exists>w'. run_events Merge w es = Returns w'
         \<and> length (heap w') = length (heap w)
         \<and> (\<forall>a<length (heap w).
               cell (heap w' ! a) =
                 Chan (case since_drain a [] es of [] \<Rightarrow> None | p # ps \<Rightarrow> Some p) False
               \<and> mailbox w' a = Chan (merged Merge (objects w) (since_drain a [] es)) False)"
    by blast
qed

theorem Send_coalesces_when_running_witness:
  "cell (Start (NewGossipSender ex_send)) = Chan None False
   \<and> Send max (Start (NewGossipSender ex_send)) 0 (objects ex_world2)
       = Returns (\<lparr>send = ex_send, cell = Chan (Some 0) False\<rparr>, objects ex_world2)
   \<and> list_all (\<lambda>s. cell s = Chan None False) (heap ex_world2)
   \<and> list_all (\<lambda>a. a < length (heap ex_world2))
        (senders_of [SendCall 0 0, SendCall 0 1, WorkerPass 0, SendCall 0 2, SendCall 1 3,
                     SendCall 0 4])
   \<and> distinct (sent_data [SendCall 0 0, SendCall 0 1, WorkerPass 0, SendCall 0 2, SendCall 1 3,
                           SendCall 0 4])
   \<and> (\<exists>w'. run_events max ex_world2
               [SendCall 0 0, SendCall 0 1, WorkerPass 0, SendCall 0 2, SendCall 1 3, SendCall 0 4]
             = Returns w'
         \<and> cell (heap w' ! 0) = Chan (Some 2) False
         \<and> mailbox w' 0 = Chan (Some 8) False
         \<and> cell (heap w' ! 1) = Chan (Some 3) False
         \<and> mailbox w' 1 = Chan (Some 4) False)"
proof -
  let ?es = "[SendCall 0 0, SendCall 0 1, WorkerPass 0, SendCall 0 2, SendCall 1 3, SendCall 0 4]"
  have c: "cell (Start (NewGossipSender ex_send)) = Chan None False"
    by (simp add: Start_def NewGossipSender_def)
  have h: "list_all (\<lambda>s. cell s = Chan None False) (heap ex_world2)
           \<and> list_all (\<lambda>a. a < length (heap ex_world2)) (senders_of ?es)
           \<and> distinct (sent_data ?es)"
    by (simp add: ex_world2_def Start_def NewGossipSender_def)
  have l: "length (heap ex_world2) = 2"
    by (simp add: ex_world2_def)
  have s0: "since_drain 0 [] ?es = [2, 4]" and s1: "since_drain 1 [] ?es = [3]"
    by simp_all
  have m0: "merged max (objects ex_world2) [2, 4] = Some 8"
    and m1: "merged max (objects ex_world2) [3] = Some 4"
    by (simp_all add: ex_world2_def)
  note t = Send_coalesces_when_running
             [of "Start (NewGossipSender ex_send)" None max 0 "objects ex_world2" ex_world2 ?es]
  from t c have 1: "Send max (Start (NewGossipSender ex_send)) 0 (objects ex_world2)
       = Returns (\<lparr>send = ex_send, cell = Chan (Some 0) False\<rparr>, objects ex_world2)"
    by (simp add: Start_def NewGossipSender_def)
  from t h obtain w' where
    r: "run_events max ex_world2 ?es = Returns w'"
    and a: "\<forall>a<length (heap ex_world2).
               cell (heap w' ! a) =
                 Chan (case since_drain a [] ?es of [] \<Rightarrow> None | p # ps \<Rightarrow> Some p) False
               \<and> mailbox w' a = Chan (merged max (objects ex_world2) (since_drain a [] ?es)) False"
    by blast
  from a [rule_format, of 0] l s0 m0
  have "cell (heap w' ! 0) = Chan (Some 2) False \<and> mailbox w' 0 = Chan (Some 8) False"
    by simp
  moreover from a [rule_format, of 1] l s1 m1
  have "cell (heap w' ! 1) = Chan (Some 3) False \<and> mailbox w' 1 = Chan (Some 4) False"
    by simp
  ultimately show ?thesis using c 1 h r by blast
qed

subsection \<open>C2: after SendGossip the senders are those of the connections\<close>

lemma Send_Returns:
  assumes "Send Merge s data objs = Returns (s', objs')"
  shows "\<exists>b b'. cell s = Chan b False \<and> cell s' = Chan b' False \<and> send s' = send s"
proof (cases "cell s")
  case NilChan
  with assms show ?thesis by (simp add: Send_def)
next
  case (Chan b c)
  with assms show ?thesis by (cases b; cases c) (auto simp: Send_def Let_def)
qed

lemma Stop_Returns:
  assumes "Stop s = Returns s'"
  shows "\<exists>b. cell s = Chan b False \<and> cell s' = Chan b True \<and> send s' = send s"
proof (cases "cell s")
  case NilChan
  with assms show ?thesis by (simp add: Stop_def)
next
  case (Chan b c)
  with assms show ?thesis by (cases c) (auto simp: Stop_def)
qed

lemma on_sender_Returns:
  assumes "on_sender f p w = Returns w'"
  shows "\<exists>a s' objs'. p = Some a \<and> a < length (heap w)
           \<and> f (heap w ! a) (objects w) = Returns (s', objs')
           \<and> w' = w\<lparr>heap := (heap w)[a := s'], objects := objs'\<rparr>"
proof (cases p)
  case None
  with assms show ?thesis by (simp add: on_sender_def)
next
  case (Some a)
  show ?thesis
  proof (cases "a < length (heap w)")
    case False
    with assms Some show ?thesis by (simp add: on_sender_def)
  next
    case True
    with assms Some show ?thesis
      by (cases "f (heap w ! a) (objects w)") (auto simp: on_sender_def)
  qed
qed

lemma on_sender_Stop:
  assumes "on_sender (\<lambda>s objs. bind_outcome (Stop s) (\<lambda>s'. Returns (s', objs))) p w = Returns w'"
  shows "stopped w' p" and "length (heap w') = length (heap w)"
    and "stopped w q \<Longrightarrow> stopped w' q"
proof -
  from on_sender_Returns [OF assms] obtain a s' objs' where
    p: "p = Some a" and a: "a < length (heap w)"
    and s: "bind_outcome (Stop (heap w ! a)) (\<lambda>s'. Returns (s', objects w)) = Returns (s', objs')"
    and w': "w' = w\<lparr>heap := (heap w)[a := s'], objects := objs'\<rparr>" by blast
  from s have "Stop (heap w ! a) = Returns s'"
    by (cases "Stop (heap w ! a)") auto
  from Stop_Returns [OF this] obtain b where
    b: "cell (heap w ! a) = Chan b False" "cell s' = Chan b True" by blast
  show "stopped w' p" using p a b w' by (simp add: stopped_def)
  show "length (heap w') = length (heap w)" using w' by simp
  show "stopped w' q" if "stopped w q"
  proof (cases q)
    case None
    with that show ?thesis by (simp add: stopped_def)
  next
    case (Some a')
    with that b have "a' \<noteq> a" by (auto simp: stopped_def)
    with that Some w' show ?thesis by (simp add: stopped_def)
  qed
qed

lemma Stop_all_stopped:
  "Stop_all ps w = Returns w' \<Longrightarrow>
     (\<forall>p \<in> set ps. stopped w' p) \<and> (\<forall>q. stopped w q \<longrightarrow> stopped w' q)"
proof (induction ps arbitrary: w)
  case Nil
  then show ?case by simp
next
  case (Cons p ps)
  from Cons.prems obtain w1 where
    1: "on_sender (\<lambda>s objs. bind_outcome (Stop s) (\<lambda>s'. Returns (s', objs))) p w = Returns w1"
    and 2: "Stop_all ps w1 = Returns w'"
    by (cases "on_sender (\<lambda>s objs. bind_outcome (Stop s) (\<lambda>s'. Returns (s', objs))) p w") auto
  from Cons.IH [OF 2] on_sender_Stop [OF 1] show ?case by auto
qed

lemma set_delete: "set (AList.delete k al) = {e \<in> set al. fst e \<noteq> k}"
  by (auto simp: AList.delete_eq)

lemma sendGossipDown_Returns:
  assumes "sendGossipDown Merge Encode c conn data w = Returns (c1, w1)"
  shows "AList.delete conn (senders c1) = AList.delete conn (senders c)"
    and "ourself c1 = ourself c"
proof -
  show "AList.delete conn (senders c1) = AList.delete conn (senders c)"
    using assms
    by (cases "map_of (senders c) conn")
       (auto simp: sendGossipDown_def Let_def AList.delete_update_same
          elim!: bind_outcome.elims)
  show "ourself c1 = ourself c"
    using assms
    by (cases "map_of (senders c) conn")
       (auto simp: sendGossipDown_def Let_def elim!: bind_outcome.elims)
qed

lemma SendGossip_loop_Returns:
  "SendGossip_loop Merge Encode data conns c r w = Returns (c1, r1, w1) \<Longrightarrow>
     set (senders c1) = {e \<in> set (senders c). fst e \<notin> set conns}
     \<and> fst ` set r1 = fst ` set r \<union> set conns
     \<and> ourself c1 = ourself c"
proof (induction conns arbitrary: c r w)
  case Nil
  then show ?case by simp
next
  case (Cons conn conns)
  from Cons.prems obtain c2 w2 where
    1: "sendGossipDown Merge Encode c conn data w = Returns (c2, w2)"
    and 2: "SendGossip_loop Merge Encode data conns
              (c2\<lparr>senders := AList.delete conn (senders c2)\<rparr>)
              (AList.update conn (case map_of (senders c2) conn of None \<Rightarrow> None | Some p \<Rightarrow> p) r)
              w2 = Returns (c1, r1, w1)"
    by (cases "sendGossipDown Merge Encode c conn data w") auto
  note d = sendGossipDown_Returns [OF 1]
  from Cons.IH [OF 2] d show ?case
    by (auto simp: set_delete AList.dom_update)
qed

lemma SendGossip_Returns:
  assumes "SendGossip Merge Encode c data w = Returns (c', w')"
  shows "fst ` set (senders c') = set (Connections (ourself c))"
    and "(conn, p) \<in> set (senders c) \<Longrightarrow> conn \<notin> set (Connections (ourself c)) \<Longrightarrow> stopped w' p"
proof -
  from assms obtain c1 r1 w1 where
    1: "SendGossip_loop Merge Encode data (Connections (ourself c)) c [] w = Returns (c1, r1, w1)"
    and 2: "Stop_all (map snd (senders c1)) w1 = Returns w'"
    and 3: "c' = c1\<lparr>senders := r1\<rparr>"
    unfolding SendGossip_def Let_def
    by (cases "SendGossip_loop Merge Encode data (Connections (ourself c)) c [] w")
       (auto elim!: bind_outcome.elims)
  note l = SendGossip_loop_Returns [OF 1]
  from l 3 show "fst ` set (senders c') = set (Connections (ourself c))" by simp
  show "stopped w' p"
    if "(conn, p) \<in> set (senders c)" and "conn \<notin> set (Connections (ourself c))"
  proof -
    from that l have "(conn, p) \<in> set (senders c1)" by simp
    then have "p \<in> set (map snd (senders c1))" by force
    with Stop_all_stopped [OF 2] show ?thesis by blast
  qed
qed

lemma runningD:
  "running w p \<Longrightarrow> \<exists>a b. p = Some a \<and> a < length (heap w) \<and> cell (heap w ! a) = Chan b False"
  by (auto simp: running_def split: option.splits chan.splits)

lemma on_sender_Send_running:
  assumes "running w p"
  shows "\<exists>w'. on_sender (\<lambda>s. Send Merge s data) p w = Returns w'
           \<and> running w' p \<and> (\<forall>q. running w q \<longrightarrow> running w' q)"
proof -
  from runningD [OF assms] obtain a b where
    p: "p = Some a" and a: "a < length (heap w)" and b: "cell (heap w ! a) = Chan b False"
    by blast
  let ?s = "(heap w ! a)\<lparr>cell := Chan (Some (case b of None \<Rightarrow> data | Some x \<Rightarrow> x)) False\<rparr>"
  let ?o = "case b of None \<Rightarrow> objects w
            | Some x \<Rightarrow> (objects w)(x := Merge (objects w x) (objects w data))"
  let ?w = "w\<lparr>heap := (heap w)[a := ?s], objects := ?o\<rparr>"
  have r: "on_sender (\<lambda>s. Send Merge s data) p w = Returns ?w"
    using p a Send_running [OF b, of Merge data "objects w"] by (simp add: on_sender_def)
  have "running ?w q" if "running w q" for q
  proof -
    from runningD [OF that] obtain a' b' where
      q: "q = Some a'" "a' < length (heap w)" "cell (heap w ! a') = Chan b' False" by blast
    then show ?thesis using a by (cases "a' = a") (simp_all add: running_def)
  qed
  with r assms show ?thesis by blast
qed

lemma sendGossipDown_running:
  assumes "list_all (running w) (map snd (senders c))"
  shows "\<exists>c1 w1 a. sendGossipDown Merge Encode c conn data w = Returns (c1, w1)
           \<and> map_of (senders c1) conn = Some (Some a)
           \<and> running w1 (Some a) \<and> (\<forall>q. running w q \<longrightarrow> running w1 q)
           \<and> (map_of (senders c) conn = Some (Some a)
               \<or> map_of (senders c) conn = None \<and> \<not> running w (Some a))"
proof (cases "map_of (senders c) conn")
  case None
  let ?a = "length (heap w)"
  let ?n = "NewGossipSender (\<lambda>pending.
                         (conn, \<lparr>tag = ProtocolGossip,
                                 msg = GobEncode [GobUint32 (hash c),
                                                  GobPeerName (Name (ourself c)),
                                                  GobBytes (Encode pending)]\<rparr>))"
  let ?w2 = "w\<lparr>heap := heap w @ [Start ?n]\<rparr>"
  have run2: "running ?w2 (Some ?a)"
    by (simp add: running_def Start_def)
  from on_sender_Send_running [OF run2, of Merge data] obtain w1 where
    w1: "on_sender (\<lambda>s. Send Merge s data) (Some ?a) ?w2 = Returns w1"
      "running w1 (Some ?a)" "\<forall>q. running ?w2 q \<longrightarrow> running w1 q"
    by blast
  have keep: "running ?w2 q" if "running w q" for q
    using runningD [OF that] by (auto simp: running_def nth_append)
  have "sendGossipDown Merge Encode c conn data w
          = Returns (c\<lparr>senders := AList.update conn (Some ?a) (senders c)\<rparr>, w1)"
    using None w1(1) by (simp add: sendGossipDown_def Let_def)
  moreover have "\<not> running w (Some ?a)"
    by (simp add: running_def)
  ultimately show ?thesis
    using None w1 keep by (auto simp: AList.update_conv')
next
  case (Some p)
  then have "p \<in> set (map snd (senders c))"
    by (force dest: map_of_SomeD)
  with assms have rp: "running w p"
    by (auto simp: list_all_iff)
  from on_sender_Send_running [OF rp, of Merge data] obtain w1 where
    w1: "on_sender (\<lambda>s. Send Merge s data) p w = Returns w1"
      "running w1 p" "\<forall>q. running w q \<longrightarrow> running w1 q"
    by blast
  from runningD [OF rp] obtain a where a: "p = Some a" by blast
  have "sendGossipDown Merge Encode c conn data w = Returns (c, w1)"
    using Some w1(1) by (simp add: sendGossipDown_def)
  with Some w1 a show ?thesis by auto
qed

lemma update_snd:
  "distinct (map snd al) \<Longrightarrow> v \<notin> snd ` set al \<Longrightarrow>
     distinct (map snd (AList.update k v al))
     \<and> snd ` set (AList.update k v al) \<subseteq> insert v (snd ` set al)"
  by (induction al) (auto simp: image_iff)

lemma distinct_snd_unique:
  "distinct (map snd S) \<Longrightarrow> (k1, v) \<in> set S \<Longrightarrow> (k2, v) \<in> set S \<Longrightarrow> k1 = k2"
  by (induction S) (auto simp: image_iff)

lemma loop_ok_step:
  assumes ok: "loop_ok S R w"
    and del: "AList.delete conn S' = AList.delete conn S"
    and cases: "map_of S conn = Some (Some a) \<or> map_of S conn = None \<and> \<not> running w (Some a)"
    and keep: "\<forall>q. running w q \<longrightarrow> running w1 q"
    and ra: "running w1 (Some a)"
  shows "loop_ok (AList.delete conn S') (AList.update conn (Some a) R) w1"
proof -
  from ok have dS: "distinct (map snd S)" and dR: "distinct (map snd R)"
    and disj: "snd ` set S \<inter> snd ` set R = {}"
    and kS: "distinct (map fst S)" and kR: "distinct (map fst R)"
    by (simp_all add: loop_ok_def)
  from ok have runS: "\<And>p. p \<in> snd ` set S \<Longrightarrow> running w p"
    and runR: "\<And>p. p \<in> snd ` set R \<Longrightarrow> running w p"
    by (simp_all add: loop_ok_def list_all_iff)
  have nS: "Some a \<notin> snd ` set (AList.delete conn S)"
  proof
    assume "Some a \<in> snd ` set (AList.delete conn S)"
    then obtain k where k: "(k, Some a) \<in> set S" and kc: "k \<noteq> conn"
      by (auto simp: set_delete)
    from cases show False
    proof
      assume "map_of S conn = Some (Some a)"
      then have m: "(conn, Some a) \<in> set S" by (rule map_of_SomeD)
      from distinct_snd_unique [OF dS k m] kc show False by simp
    next
      assume "map_of S conn = None \<and> \<not> running w (Some a)"
      then have nr: "\<not> running w (Some a)" by simp
      from k have "Some a \<in> snd ` set S" by (rule image_eqI [rotated]) simp
      from runS [OF this] nr show False by simp
    qed
  qed
  have nR: "Some a \<notin> snd ` set R"
  proof
    assume in_R: "Some a \<in> snd ` set R"
    from cases show False
    proof
      assume "map_of S conn = Some (Some a)"
      then have "(conn, Some a) \<in> set S" by (rule map_of_SomeD)
      then have "Some a \<in> snd ` set S" by force
      with in_R disj show False by blast
    next
      assume "map_of S conn = None \<and> \<not> running w (Some a)"
      with runR [OF in_R] show False by simp
    qed
  qed
  from update_snd [OF dR nR, of conn]
  have u1: "distinct (map snd (AList.update conn (Some a) R))"
    and u2: "snd ` set (AList.update conn (Some a) R) \<subseteq> insert (Some a) (snd ` set R)"
    by simp_all
  have sub: "snd ` set (AList.delete conn S) \<subseteq> snd ` set S"
    by (auto simp: set_delete)
  have d1: "distinct (map snd (AList.delete conn S))"
    using dS unfolding AList.delete_eq by (rule distinct_map_filter)
  have d2: "snd ` set (AList.delete conn S) \<inter> snd ` set (AList.update conn (Some a) R) = {}"
  proof (rule equals0I)
    fix p assume "p \<in> snd ` set (AList.delete conn S) \<inter> snd ` set (AList.update conn (Some a) R)"
    then have 1: "p \<in> snd ` set (AList.delete conn S)"
      and 2: "p \<in> snd ` set (AList.update conn (Some a) R)"
      by simp_all
    from subsetD [OF u2 2] have "p = Some a \<or> p \<in> snd ` set R" by simp
    then show False
    proof
      assume "p = Some a"
      with 1 nS show False by simp
    next
      assume r: "p \<in> snd ` set R"
      from subsetD [OF sub 1] have "p \<in> snd ` set S" .
      with r have "p \<in> snd ` set S \<inter> snd ` set R" by simp
      with disj show False by simp
    qed
  qed
  have r1: "running w1 p" if "p \<in> snd ` set (AList.delete conn S)" for p
  proof -
    from subsetD [OF sub that] have "p \<in> snd ` set S" .
    from keep [rule_format, OF runS [OF this]] show ?thesis .
  qed
  have r2: "running w1 p" if "p \<in> snd ` set (AList.update conn (Some a) R)" for p
  proof (cases "p = Some a")
    case True
    with ra show ?thesis by simp
  next
    case False
    from subsetD [OF u2 that] False have "p \<in> snd ` set R" by simp
    from keep [rule_format, OF runR [OF this]] show ?thesis .
  qed
  have k1: "distinct (map fst (AList.delete conn S))"
    using kS by (rule AList.distinct_delete)
  have k2: "distinct (map fst (AList.update conn (Some a) R))"
    using kR by (rule AList.distinct_update)
  have ra1: "list_all (running w1) (map snd (AList.delete conn S))"
    unfolding list_all_iff using r1 by simp
  have ra2: "list_all (running w1) (map snd (AList.update conn (Some a) R))"
    unfolding list_all_iff using r2 by simp
  have r: "list_all (running w1)
             (map snd (AList.delete conn S) @ map snd (AList.update conn (Some a) R))"
    using ra1 ra2 by simp
  have d: "distinct (map snd (AList.delete conn S) @ map snd (AList.update conn (Some a) R))"
    using d1 u1 d2 by simp
  show ?thesis
    unfolding loop_ok_def del by (intro conjI k1 k2 d r)
qed

lemma SendGossip_loop_ok:
  "loop_ok (senders c) r w \<Longrightarrow>
   \<exists>c1 r1 w1. SendGossip_loop Merge Encode data conns c r w = Returns (c1, r1, w1)
      \<and> loop_ok (senders c1) r1 w1"
proof (induction conns arbitrary: c r w)
  case Nil
  then show ?case by simp
next
  case (Cons conn conns)
  from Cons.prems have "list_all (running w) (map snd (senders c))"
    by (simp add: loop_ok_def)
  from sendGossipDown_running [OF this, of Merge Encode conn data] obtain c2 w2 a where
    1: "sendGossipDown Merge Encode c conn data w = Returns (c2, w2)"
    and 2: "map_of (senders c2) conn = Some (Some a)"
    and 3: "running w2 (Some a)"
    and 4: "\<forall>q. running w q \<longrightarrow> running w2 q"
    and 5: "map_of (senders c) conn = Some (Some a)
            \<or> map_of (senders c) conn = None \<and> \<not> running w (Some a)"
    by blast
  note del = sendGossipDown_Returns(1) [OF 1]
  let ?c = "c2\<lparr>senders := AList.delete conn (senders c2)\<rparr>"
  from loop_ok_step [OF Cons.prems del 5 4 3]
  have "loop_ok (senders ?c) (AList.update conn (Some a) r) w2" by simp
  from Cons.IH [OF this] obtain c1 r1 w1 where
    6: "SendGossip_loop Merge Encode data conns ?c (AList.update conn (Some a) r) w2
          = Returns (c1, r1, w1)"
    and 7: "loop_ok (senders c1) r1 w1"
    by blast
  from 1 2 6 have "SendGossip_loop Merge Encode data (conn # conns) c r w = Returns (c1, r1, w1)"
    by simp
  with 7 show ?case by blast
qed

lemma on_sender_Stop_running:
  assumes "running w p"
  shows "\<exists>w'. on_sender (\<lambda>s objs. bind_outcome (Stop s) (\<lambda>s'. Returns (s', objs))) p w = Returns w'
           \<and> (\<forall>q. running w q \<and> q \<noteq> p \<longrightarrow> running w' q)"
proof -
  from runningD [OF assms] obtain a b where
    p: "p = Some a" and a: "a < length (heap w)" and b: "cell (heap w ! a) = Chan b False"
    by blast
  let ?w = "w\<lparr>heap := (heap w)[a := (heap w ! a)\<lparr>cell := Chan b True\<rparr>], objects := objects w\<rparr>"
  have r: "on_sender (\<lambda>s objs. bind_outcome (Stop s) (\<lambda>s'. Returns (s', objs))) p w = Returns ?w"
    using p a b by (simp add: on_sender_def Stop_def)
  have "running ?w q" if "running w q" and "q \<noteq> p" for q
  proof -
    from runningD [OF that(1)] obtain a' b' where
      q: "q = Some a'" "a' < length (heap w)" "cell (heap w ! a') = Chan b' False" by blast
    with that(2) p have "a' \<noteq> a" by simp
    with q show ?thesis by (simp add: running_def)
  qed
  with r show ?thesis by blast
qed

lemma Stop_all_running:
  "distinct ps \<Longrightarrow> list_all (running w) ps \<Longrightarrow>
   \<exists>w'. Stop_all ps w = Returns w'
      \<and> (\<forall>q. running w q \<and> q \<notin> set ps \<longrightarrow> running w' q)"
proof (induction ps arbitrary: w)
  case Nil
  then show ?case by simp
next
  case (Cons p ps)
  from Cons.prems have rp: "running w p" and d: "distinct ps" and np: "p \<notin> set ps"
    and rest: "list_all (running w) ps"
    by simp_all
  from on_sender_Stop_running [OF rp] obtain w1 where
    1: "on_sender (\<lambda>s objs. bind_outcome (Stop s) (\<lambda>s'. Returns (s', objs))) p w = Returns w1"
    and 2: "\<forall>q. running w q \<and> q \<noteq> p \<longrightarrow> running w1 q"
    by blast
  have "list_all (running w1) ps"
    unfolding list_all_iff
  proof
    fix q assume q: "q \<in> set ps"
    with rest have "running w q" by (simp add: list_all_iff)
    moreover from q np have "q \<noteq> p" by auto
    ultimately show "running w1 q" using 2 by simp
  qed
  from Cons.IH [OF d this] obtain w' where
    3: "Stop_all ps w1 = Returns w'"
    and 4: "\<forall>q. running w1 q \<and> q \<notin> set ps \<longrightarrow> running w' q"
    by blast
  from 1 3 have "Stop_all (p # ps) w = Returns w'" by simp
  moreover have "running w' q" if "running w q \<and> q \<notin> set (p # ps)" for q
  proof -
    from that have "running w q" "q \<noteq> p" "q \<notin> set ps" by simp_all
    with 2 have "running w1 q" by simp
    with 4 \<open>q \<notin> set ps\<close> show ?thesis by simp
  qed
  ultimately show ?case by blast
qed

lemma SendGossip_ok:
  assumes "senders_ok c w"
  shows "\<exists>c' w'. SendGossip Merge Encode c data w = Returns (c', w') \<and> senders_ok c' w'"
proof -
  from assms have "loop_ok (senders c) [] w"
    by (simp add: senders_ok_def loop_ok_def)
  from SendGossip_loop_ok [OF this, of Merge Encode data "Connections (ourself c)"]
  obtain c1 r1 w1 where
    1: "SendGossip_loop Merge Encode data (Connections (ourself c)) c [] w = Returns (c1, r1, w1)"
    and 2: "loop_ok (senders c1) r1 w1"
    by blast
  from 2 have dS: "distinct (map snd (senders c1))"
    and rS: "list_all (running w1) (map snd (senders c1))"
    and kR: "distinct (map fst r1)" and dR: "distinct (map snd r1)"
    and rR: "list_all (running w1) (map snd r1)"
    and disj: "set (map snd (senders c1)) \<inter> set (map snd r1) = {}"
    by (simp_all add: loop_ok_def)
  from Stop_all_running [OF dS rS] obtain w' where
    3: "Stop_all (map snd (senders c1)) w1 = Returns w'"
    and 4: "\<forall>q. running w1 q \<and> q \<notin> set (map snd (senders c1)) \<longrightarrow> running w' q"
    by blast
  have "list_all (running w') (map snd r1)"
    unfolding list_all_iff
  proof
    fix q assume q: "q \<in> set (map snd r1)"
    with rR have "running w1 q" by (auto simp: list_all_iff)
    moreover from q disj have "q \<notin> set (map snd (senders c1))" by blast
    ultimately show "running w' q" using 4 by simp
  qed
  with kR dR have "senders_ok (c1\<lparr>senders := r1\<rparr>) w'"
    by (simp add: senders_ok_def)
  moreover from 1 3 have "SendGossip Merge Encode c data w = Returns (c1\<lparr>senders := r1\<rparr>, w')"
    by (simp add: SendGossip_def)
  ultimately show ?thesis by blast
qed

text \<open>
  C2. When \<open>SendGossip(data)\<close> returns, the key set of \<open>senders\<close> is exactly the set
  of the connections in the snapshot of \<open>Connections()\<close> taken at the start of the
  call, and every sender that was in the map under a connection absent from the
  snapshot has been stopped: its cell is closed. And it does return, leaving the map
  well formed, whenever it starts from a well-formed map of running senders
  (\<open>senders_ok\<close>), which is what a channel made by \<open>NewGossip\<close> has and what
  \<open>SendGossip\<close> preserves.
\<close>

theorem SendGossip_senders_track_connections:
  "(senders_ok c w \<longrightarrow>
      (\<exists>c1 w1. SendGossip Merge Encode c data w = Returns (c1, w1) \<and> senders_ok c1 w1))
   \<and> (SendGossip Merge Encode c data w = Returns (c', w') \<longrightarrow>
        fst ` set (senders c') = set (Connections (ourself c))
        \<and> (\<forall>conn p. (conn, p) \<in> set (senders c) \<and> conn \<notin> set (Connections (ourself c))
              \<longrightarrow> stopped w' p))"
proof -
  have 1: "\<exists>c1 w1. SendGossip Merge Encode c data w = Returns (c1, w1) \<and> senders_ok c1 w1"
    if "senders_ok c w"
    using that by (rule SendGossip_ok)
  have 2: "fst ` set (senders c') = set (Connections (ourself c))
        \<and> (\<forall>conn p. (conn, p) \<in> set (senders c) \<and> conn \<notin> set (Connections (ourself c))
              \<longrightarrow> stopped w' p)"
    if r: "SendGossip Merge Encode c data w = Returns (c', w')"
    using SendGossip_Returns [OF r] by blast
  from 1 2 show ?thesis by blast
qed

theorem SendGossip_senders_track_connections_witness:
  "senders_ok (ex_channel\<lparr>senders := [(Connection 10, Some 0), (Connection 30, Some 1)]\<rparr>) ex_world2
   \<and> Connections (ourself ex_channel) = [Connection 10, Connection 20]
   \<and> (\<exists>c' w'.
        SendGossip max ex_Encode
          (ex_channel\<lparr>senders := [(Connection 10, Some 0), (Connection 30, Some 1)]\<rparr>) 0 ex_world2
          = Returns (c', w')
        \<and> senders c' = [(Connection 10, Some 0), (Connection 20, Some 2)]
        \<and> fst ` set (senders c') = {Connection 10, Connection 20}
        \<and> map cell (heap w') = [Chan (Some 0) False, Chan None True, Chan (Some 0) False]
        \<and> stopped w' (Some 1)
        \<and> senders_ok c' w')"
proof -
  let ?c = "ex_channel\<lparr>senders := [(Connection 10, Some 0), (Connection 30, Some 1)]\<rparr>"
  have ok: "senders_ok ?c ex_world2"
    by (simp add: senders_ok_def running_def ex_world2_def ex_channel_def Start_def
          NewGossipSender_def)
  have conns: "Connections (ourself ex_channel) = [Connection 10, Connection 20]"
    by (simp add: ex_defs)
  have e: "\<exists>c' w'. SendGossip max ex_Encode ?c 0 ex_world2 = Returns (c', w')
        \<and> senders c' = [(Connection 10, Some 0), (Connection 20, Some 2)]
        \<and> map cell (heap w') = [Chan (Some 0) False, Chan None True, Chan (Some 0) False]"
    by (simp add: eval_defs ex_defs ex_world2_def)
  then obtain c' w' where
    r: "SendGossip max ex_Encode ?c 0 ex_world2 = Returns (c', w')"
    and s: "senders c' = [(Connection 10, Some 0), (Connection 20, Some 2)]"
    and h: "map cell (heap w') = [Chan (Some 0) False, Chan None True, Chan (Some 0) False]"
    by (elim exE conjE)
  note t = SendGossip_senders_track_connections [of ?c ex_world2 max ex_Encode 0 c' w']
  from t [THEN conjunct1, THEN mp, OF ok] r have ok': "senders_ok c' w'" by auto
  from t [THEN conjunct2, THEN mp, OF r, THEN conjunct1] conns
  have keys: "fst ` set (senders c') = {Connection 10, Connection 20}"
    by (simp add: ex_channel_def)
  have "(Connection 30, Some 1) \<in> set (senders ?c)
        \<and> Connection 30 \<notin> set (Connections (ourself ?c))"
    by (simp add: ex_defs)
  from t [THEN conjunct2, THEN mp, OF r, THEN conjunct2, rule_format, OF this]
  have st: "stopped w' (Some 1)" .
  from r s keys h st ok'
  have "\<exists>c' w'.
        SendGossip max ex_Encode ?c 0 ex_world2 = Returns (c', w')
        \<and> senders c' = [(Connection 10, Some 0), (Connection 20, Some 2)]
        \<and> fst ` set (senders c') = {Connection 10, Connection 20}
        \<and> map cell (heap w') = [Chan (Some 0) False, Chan None True, Chan (Some 0) False]
        \<and> stopped w' (Some 1)
        \<and> senders_ok c' w'"
    by (intro exI [of _ c'] exI [of _ w'] conjI)
  with ok conns show ?thesis by (intro conjI)
qed

subsection \<open>C3: anti-entropy frames re-gossip the delta only\<close>

text \<open>
  C3. For an inbound anti-entropy frame whose payload decodes, \<open>deliverGossip\<close>
  invokes \<open>OnGossip(payload)\<close>. If that returns an error, the error is returned and
  nothing is sent; if it returns (nil, nil), nil is returned and nothing is sent; if it
  returns a delta, \<open>deliverGossip\<close> does \<open>SendGossip(delta)\<close>, with the delta (the new
  object whose content the gossiper returned) and nothing else, and returns nil.
\<close>

theorem deliverGossip_regossips_delta:
  assumes "Decode_bytes dec = Inr (payload, dec1)"
    and "OnGossip (gossiper c) (state (gossiper c)) payload = ((delta, r), st)"
  shows "(\<forall>err. r = Some err \<longrightarrow>
            deliverGossip Merge Encode c srcName origPayload dec w =
              Returns (Some err, c\<lparr>gossiper := (gossiper c)\<lparr>state := st\<rparr>\<rparr>, w))
       \<and> (r = None \<and> delta = None \<longrightarrow>
            deliverGossip Merge Encode c srcName origPayload dec w =
              Returns (None, c\<lparr>gossiper := (gossiper c)\<lparr>state := st\<rparr>\<rparr>, w))
       \<and> (\<forall>d. r = None \<and> delta = Some d \<longrightarrow>
            deliverGossip Merge Encode c srcName origPayload dec w =
              bind_outcome
                (SendGossip Merge Encode (c\<lparr>gossiper := (gossiper c)\<lparr>state := st\<rparr>\<rparr>)
                   (fresh w)
                   (w\<lparr>objects := (objects w)(fresh w := d), fresh := Suc (fresh w)\<rparr>))
                (\<lambda>(c1, w1). Returns (None, c1, w1)))"
  using assms
  by (cases r; cases delta)
     (simp_all add: deliverGossip_def call_OnGossip_def new_object_def)

theorem deliverGossip_regossips_delta_witness:
  "Decode_bytes [GobBytes [9]] = Inr ([9], [])
   \<and> OnGossip (gossiper ex_channel) (state (gossiper ex_channel)) [9] = ((Some 9, None), 14)
   \<and> (\<exists>c1 w1.
        deliverGossip max ex_Encode ex_channel (PeerName 2)
          [GobUint32 99, GobPeerName (PeerName 2), GobBytes [9]] [GobBytes [9]] ex_world
          = Returns (None, c1, w1)
        \<and> state (gossiper c1) = 14
        \<and> senders c1 = [(Connection 10, Some 0), (Connection 20, Some 1)]
        \<and> map cell (heap w1) = [Chan (Some 0) False, Chan (Some 0) False]
        \<and> objects w1 0 = 9
        \<and> wire w1 = [])
   \<and> Decode_bytes [GobBytes [3]] = Inr ([3], [])
   \<and> OnGossip (gossiper ex_channel) (state (gossiper ex_channel)) [3] = ((None, None), 5)
   \<and> deliverGossip max ex_Encode ex_channel (PeerName 2)
        [GobUint32 99, GobPeerName (PeerName 2), GobBytes [3]] [GobBytes [3]] ex_world
       = Returns (None, ex_channel\<lparr>gossiper := ex_gossiper\<lparr>state := 5\<rparr>\<rparr>, ex_world)
   \<and> Decode_bytes [GobBytes []] = Inr ([], [])
   \<and> OnGossip (gossiper ex_channel) (state (gossiper ex_channel)) []
       = ((None, Some (OtherError ''empty'')), 5)
   \<and> deliverGossip max ex_Encode ex_channel (PeerName 2)
        [GobUint32 99, GobPeerName (PeerName 2), GobBytes []] [GobBytes []] ex_world
       = Returns (Some (OtherError ''empty''), ex_channel\<lparr>gossiper := ex_gossiper\<lparr>state := 5\<rparr>\<rparr>,
                  ex_world)"
proof -
  have d1: "Decode_bytes [GobBytes [9]] = Inr ([9], [])"
    by simp
  have g1: "OnGossip (gossiper ex_channel) (state (gossiper ex_channel)) [9] = ((Some 9, None), 14)"
    by (simp add: ex_defs)
  have d2: "Decode_bytes [GobBytes [3]] = Inr ([3], [])"
    by simp
  have g2: "OnGossip (gossiper ex_channel) (state (gossiper ex_channel)) [3] = ((None, None), 5)"
    by (simp add: ex_defs)
  have d3: "Decode_bytes [GobBytes []] = Inr ([], [])"
    by simp
  have g3: "OnGossip (gossiper ex_channel) (state (gossiper ex_channel)) []
              = ((None, Some (OtherError ''empty'')), 5)"
    by (simp add: ex_defs)
  have s: "\<exists>c1 w1.
        SendGossip max ex_Encode (ex_channel\<lparr>gossiper := (gossiper ex_channel)\<lparr>state := 14\<rparr>\<rparr>)
          (fresh ex_world)
          (ex_world\<lparr>objects := (objects ex_world)(fresh ex_world := 9),
                    fresh := Suc (fresh ex_world)\<rparr>) = Returns (c1, w1)
        \<and> state (gossiper c1) = 14
        \<and> senders c1 = [(Connection 10, Some 0), (Connection 20, Some 1)]
        \<and> map cell (heap w1) = [Chan (Some 0) False, Chan (Some 0) False]
        \<and> objects w1 0 = 9
        \<and> wire w1 = []"
    by (simp add: eval_defs ex_defs)
  from deliverGossip_regossips_delta [OF d1 g1, of max ex_Encode "PeerName 2"
         "[GobUint32 99, GobPeerName (PeerName 2), GobBytes [9]]" ex_world] s
  have c1: "\<exists>c1 w1.
        deliverGossip max ex_Encode ex_channel (PeerName 2)
          [GobUint32 99, GobPeerName (PeerName 2), GobBytes [9]] [GobBytes [9]] ex_world
          = Returns (None, c1, w1)
        \<and> state (gossiper c1) = 14
        \<and> senders c1 = [(Connection 10, Some 0), (Connection 20, Some 1)]
        \<and> map cell (heap w1) = [Chan (Some 0) False, Chan (Some 0) False]
        \<and> objects w1 0 = 9
        \<and> wire w1 = []"
    by auto
  from deliverGossip_regossips_delta [OF d2 g2, of max ex_Encode "PeerName 2"
         "[GobUint32 99, GobPeerName (PeerName 2), GobBytes [3]]" ex_world]
  have c2: "deliverGossip max ex_Encode ex_channel (PeerName 2)
        [GobUint32 99, GobPeerName (PeerName 2), GobBytes [3]] [GobBytes [3]] ex_world
       = Returns (None, ex_channel\<lparr>gossiper := ex_gossiper\<lparr>state := 5\<rparr>\<rparr>, ex_world)"
    by (simp add: ex_channel_def)
  from deliverGossip_regossips_delta [OF d3 g3, of max ex_Encode "PeerName 2"
         "[GobUint32 99, GobPeerName (PeerName 2), GobBytes []]" ex_world]
  have c3: "deliverGossip max ex_Encode ex_channel (PeerName 2)
        [GobUint32 99, GobPeerName (PeerName 2), GobBytes []] [GobBytes []] ex_world
       = Returns (Some (OtherError ''empty''), ex_channel\<lparr>gossiper := ex_gossiper\<lparr>state := 5\<rparr>\<rparr>,
                  ex_world)"
    by (simp add: ex_channel_def)
  from d1 g1 c1 d2 g2 c2 d3 g3 c3 show ?thesis by blast
qed

subsection \<open>C4: a gossiper error stops the relay of a broadcast\<close>

text \<open>
  C4. For an inbound broadcast frame whose payload decodes: if
  \<open>OnGossipBroadcast(payload)\<close> returns an error, \<open>deliverGossipBroadcast\<close> returns
  that error and nothing is sent or logged (the relay is not called); if it succeeds,
  \<open>deliverGossipBroadcast\<close> does what \<open>relayGossipBroadcast(srcName, origPayload)\<close>
  does: when the source peer is known, the inbound frame itself goes out on every
  next hop for that source.
\<close>

theorem deliverGossipBroadcast_error_stops_relay:
  assumes "Decode_bytes dec = Inr (payload, dec1)"
    and "OnGossipBroadcast (gossiper c) (state (gossiper c)) payload = (r, st)"
  shows "(\<forall>err. r = Some err \<longrightarrow>
            deliverGossipBroadcast c srcName origPayload dec w =
              (Some err, c\<lparr>gossiper := (gossiper c)\<lparr>state := st\<rparr>\<rparr>, w))
       \<and> (r = None \<longrightarrow>
            deliverGossipBroadcast c srcName origPayload dec w =
              (fst (relayGossipBroadcast (c\<lparr>gossiper := (gossiper c)\<lparr>state := st\<rparr>\<rparr>)
                      srcName origPayload w),
               c\<lparr>gossiper := (gossiper c)\<lparr>state := st\<rparr>\<rparr>,
               snd (relayGossipBroadcast (c\<lparr>gossiper := (gossiper c)\<lparr>state := st\<rparr>\<rparr>)
                      srcName origPayload w))
            \<and> (\<forall>srcPeer. Peers_Fetch (ourself c) srcName = Some srcPeer \<longrightarrow>
                 deliverGossipBroadcast c srcName origPayload dec w =
                   (None, c\<lparr>gossiper := (gossiper c)\<lparr>state := st\<rparr>\<rparr>,
                    w\<lparr>wire := wire w @
                       map (\<lambda>conn. (conn, \<lparr>tag = ProtocolGossipBroadcast, msg = origPayload\<rparr>))
                         (NextBroadcastHops (ourself c) srcPeer)\<rparr>)))"
  using assms
  by (cases r)
     (simp_all add: deliverGossipBroadcast_def call_OnGossipBroadcast_def
        relayGossipBroadcast_def foldl_SendProtocolMsg)

theorem deliverGossipBroadcast_error_stops_relay_witness:
  "Decode_bytes [GobBytes []] = Inr ([], [])
   \<and> OnGossipBroadcast (gossiper ex_channel) (state (gossiper ex_channel)) []
       = (Some (OtherError ''empty''), 5)
   \<and> deliverGossipBroadcast ex_channel (PeerName 7)
        [GobUint32 99, GobPeerName (PeerName 7), GobBytes []] [GobBytes []] ex_world
     = (Some (OtherError ''empty''), ex_channel\<lparr>gossiper := ex_gossiper\<lparr>state := 5\<rparr>\<rparr>, ex_world)
   \<and> Decode_bytes [GobBytes [4]] = Inr ([4], [])
   \<and> OnGossipBroadcast (gossiper ex_channel) (state (gossiper ex_channel)) [4] = (None, 5)
   \<and> Peers_Fetch (ourself ex_channel) (PeerName 7) = Some (Peer 7)
   \<and> deliverGossipBroadcast ex_channel (PeerName 7)
        [GobUint32 99, GobPeerName (PeerName 7), GobBytes [4]] [GobBytes [4]] ex_world
     = (None, ex_channel\<lparr>gossiper := ex_gossiper\<lparr>state := 5\<rparr>\<rparr>,
        \<lparr>heap = [], objects = (\<lambda>a. 0), fresh = 0,
         wire = [(Connection 10,
                  \<lparr>tag = ProtocolGossipBroadcast,
                   msg = [GobUint32 99, GobPeerName (PeerName 7), GobBytes [4]]\<rparr>),
                 (Connection 20,
                  \<lparr>tag = ProtocolGossipBroadcast,
                   msg = [GobUint32 99, GobPeerName (PeerName 7), GobBytes [4]]\<rparr>)],
         logged = []\<rparr>)"
proof -
  have d1: "Decode_bytes [GobBytes []] = Inr ([], [])"
    by simp
  have g1: "OnGossipBroadcast (gossiper ex_channel) (state (gossiper ex_channel)) []
              = (Some (OtherError ''empty''), 5)"
    by (simp add: ex_channel_def ex_gossiper_def)
  have d2: "Decode_bytes [GobBytes [4]] = Inr ([4], [])"
    by simp
  have g2: "OnGossipBroadcast (gossiper ex_channel) (state (gossiper ex_channel)) [4] = (None, 5)"
    by (simp add: ex_channel_def ex_gossiper_def)
  from deliverGossipBroadcast_error_stops_relay [OF d1 g1, of "PeerName 7"
         "[GobUint32 99, GobPeerName (PeerName 7), GobBytes []]" ex_world]
       deliverGossipBroadcast_error_stops_relay [OF d2 g2, of "PeerName 7"
         "[GobUint32 99, GobPeerName (PeerName 7), GobBytes [4]]" ex_world]
       d1 g1 d2 g2
  show ?thesis
    by (simp add: eval_defs ex_defs)
qed

subsection \<open>C5: unicast frames for other peers are forwarded verbatim\<close>

text \<open>
  C5. For an inbound unicast frame whose destination name decodes: if the destination
  is not this peer, \<open>deliverGossipUnicast\<close> does what
  \<open>relayGossipUnicast(destName, origPayload)\<close> does and leaves the channel, and with
  it the gossiper, untouched; when the route and the connection exist, the message
  handed to the connection is the inbound frame itself. Only if the destination is this
  peer is the inner payload decoded (a failure is returned) and
  \<open>OnGossipUnicast(srcName, payload)\<close> invoked, whose error is the result.
\<close>

theorem deliverGossipUnicast_relays_verbatim:
  assumes "Decode_PeerName dec = Inr (destName, dec1)"
  shows "(Name (ourself c) \<noteq> destName \<longrightarrow>
            deliverGossipUnicast c srcName origPayload dec w =
              (fst (relayGossipUnicast c destName origPayload w), c,
               snd (relayGossipUnicast c destName origPayload w))
            \<and> (\<forall>relay conn. Routes_Unicast (ourself c) destName = Some relay
                  \<and> ConnectionTo (ourself c) relay = Some conn \<longrightarrow>
                 deliverGossipUnicast c srcName origPayload dec w =
                   (None, c, w\<lparr>wire := wire w @
                      [(conn, \<lparr>tag = ProtocolGossipUnicast, msg = origPayload\<rparr>)]\<rparr>)))
       \<and> (Name (ourself c) = destName \<longrightarrow>
            (\<forall>err. Decode_bytes dec1 = Inl err \<longrightarrow>
               deliverGossipUnicast c srcName origPayload dec w = (Some err, c, w))
            \<and> (\<forall>payload dec2 err st.
                 Decode_bytes dec1 = Inr (payload, dec2)
                 \<and> OnGossipUnicast (gossiper c) (state (gossiper c)) srcName payload = (err, st) \<longrightarrow>
                 deliverGossipUnicast c srcName origPayload dec w =
                   (err, c\<lparr>gossiper := (gossiper c)\<lparr>state := st\<rparr>\<rparr>, w)))"
  using assms
  by (simp add: deliverGossipUnicast_def relayGossipUnicast_def SendProtocolMsg_def
        call_OnGossipUnicast_def)

theorem deliverGossipUnicast_relays_verbatim_witness:
  "Decode_PeerName [GobPeerName (PeerName 3), GobBytes [1]]
     = Inr (PeerName 3, [GobBytes [1]])
   \<and> Name (ourself ex_channel) \<noteq> PeerName 3
   \<and> deliverGossipUnicast ex_channel (PeerName 8)
        [GobUint32 99, GobPeerName (PeerName 8), GobPeerName (PeerName 3), GobBytes [1]]
        [GobPeerName (PeerName 3), GobBytes [1]] ex_world
     = (None, ex_channel,
        \<lparr>heap = [], objects = (\<lambda>a. 0), fresh = 0,
         wire = [(Connection 10,
                  \<lparr>tag = ProtocolGossipUnicast,
                   msg = [GobUint32 99, GobPeerName (PeerName 8), GobPeerName (PeerName 3),
                          GobBytes [1]]\<rparr>)],
         logged = []\<rparr>)
   \<and> Decode_PeerName [GobPeerName (PeerName 1), GobBytes []]
     = Inr (PeerName 1, [GobBytes []])
   \<and> Name (ourself ex_channel) = PeerName 1
   \<and> deliverGossipUnicast ex_channel (PeerName 8)
        [GobUint32 99, GobPeerName (PeerName 8), GobPeerName (PeerName 1), GobBytes []]
        [GobPeerName (PeerName 1), GobBytes []] ex_world
     = (Some (OtherError ''empty''), ex_channel\<lparr>gossiper := ex_gossiper\<lparr>state := 5\<rparr>\<rparr>, ex_world)"
proof -
  have d1: "Decode_PeerName [GobPeerName (PeerName 3), GobBytes [1]]
              = Inr (PeerName 3, [GobBytes [1]])"
    by simp
  have d2: "Decode_PeerName [GobPeerName (PeerName 1), GobBytes []]
              = Inr (PeerName 1, [GobBytes []])"
    by simp
  from deliverGossipUnicast_relays_verbatim [OF d1, of ex_channel "PeerName 8"
         "[GobUint32 99, GobPeerName (PeerName 8), GobPeerName (PeerName 3), GobBytes [1]]"
         ex_world]
       deliverGossipUnicast_relays_verbatim [OF d2, of ex_channel "PeerName 8"
         "[GobUint32 99, GobPeerName (PeerName 8), GobPeerName (PeerName 1), GobBytes []]"
         ex_world]
  show ?thesis
    by (simp add: eval_defs ex_defs)
qed

subsection \<open>C6: the dispatcher\<close>

text \<open>
  C6. \<open>handleGossip\<close> returns the decode error when the channel hash does not decode;
  the unknown-channel error when the hash is not in the registry; the decode error when
  the source name does not decode. Otherwise it gives the frame to
  \<open>deliverGossipUnicast\<close>, \<open>deliverGossipBroadcast\<close> or \<open>deliverGossip\<close> according
  to the tag, and for any other tag it returns nil and changes nothing.
\<close>

theorem handleGossip_dispatch:
  "(\<forall>err. Decode_uint32 (NewDecoder payload) = Inl err \<longrightarrow>
      handleGossip Merge Encode router t payload w = Returns (Some err, router, w))
   \<and> (\<forall>h dec1. Decode_uint32 (NewDecoder payload) = Inr (h, dec1) \<longrightarrow>
        (map_of (GossipChannels router) h = None \<longrightarrow>
           handleGossip Merge Encode router t payload w =
             Returns (Some (UnknownChannel h), router, w))
        \<and> (\<forall>channel. map_of (GossipChannels router) h = Some channel \<longrightarrow>
             (\<forall>err. Decode_PeerName dec1 = Inl err \<longrightarrow>
                handleGossip Merge Encode router t payload w = Returns (Some err, router, w))
             \<and> (\<forall>srcName dec2. Decode_PeerName dec1 = Inr (srcName, dec2) \<longrightarrow>
                  handleGossip Merge Encode router ProtocolGossipUnicast payload w =
                    (case deliverGossipUnicast channel srcName payload dec2 w of
                       (err, c1, w1) \<Rightarrow> Returns (err, put_channel router h c1, w1))
                  \<and> handleGossip Merge Encode router ProtocolGossipBroadcast payload w =
                    (case deliverGossipBroadcast channel srcName payload dec2 w of
                       (err, c1, w1) \<Rightarrow> Returns (err, put_channel router h c1, w1))
                  \<and> handleGossip Merge Encode router ProtocolGossip payload w =
                    bind_outcome (deliverGossip Merge Encode channel srcName payload dec2 w)
                      (\<lambda>(err, c1, w1). Returns (err, put_channel router h c1, w1))
                  \<and> (\<forall>n. handleGossip Merge Encode router (ProtocolOther n) payload w =
                        Returns (None, router, w)))))"
  by (simp add: handleGossip_def)

theorem handleGossip_dispatch_witness:
  "Decode_uint32 (NewDecoder []) = Inl DecodeError
   \<and> handleGossip max ex_Encode ex_router ProtocolGossip [] ex_world
       = Returns (Some DecodeError, ex_router, ex_world)
   \<and> Decode_uint32 (NewDecoder [GobUint32 77, GobPeerName (PeerName 2), GobBytes [9]])
       = Inr (77, [GobPeerName (PeerName 2), GobBytes [9]])
   \<and> map_of (GossipChannels ex_router) 77 = None
   \<and> handleGossip max ex_Encode ex_router ProtocolGossip
        [GobUint32 77, GobPeerName (PeerName 2), GobBytes [9]] ex_world
       = Returns (Some (UnknownChannel 77), ex_router, ex_world)
   \<and> Decode_uint32 (NewDecoder [GobUint32 99, GobBytes [9]]) = Inr (99, [GobBytes [9]])
   \<and> map_of (GossipChannels ex_router) 99 = Some ex_channel
   \<and> Decode_PeerName [GobBytes [9]] = Inl DecodeError
   \<and> handleGossip max ex_Encode ex_router ProtocolGossip [GobUint32 99, GobBytes [9]] ex_world
       = Returns (Some DecodeError, ex_router, ex_world)
   \<and> Decode_uint32 (NewDecoder [GobUint32 99, GobPeerName (PeerName 2), GobBytes [3]])
       = Inr (99, [GobPeerName (PeerName 2), GobBytes [3]])
   \<and> Decode_PeerName [GobPeerName (PeerName 2), GobBytes [3]] = Inr (PeerName 2, [GobBytes [3]])
   \<and> handleGossip max ex_Encode ex_router (ProtocolOther 0)
        [GobUint32 99, GobPeerName (PeerName 2), GobBytes [3]] ex_world
       = Returns (None, ex_router, ex_world)
   \<and> handleGossip max ex_Encode ex_router ProtocolGossipBroadcast
        [GobUint32 99, GobPeerName (PeerName 2), GobBytes [3]] ex_world
       = Returns (None, ex_router,
           ex_world\<lparr>logged :=
             [[LogString ''[gossip topology]:'',
               LogString ''unable to relay broadcast from unknown peer'',
               LogPeerName (PeerName 2)]]\<rparr>)"
proof -
  have a: "Decode_uint32 (NewDecoder []) = Inl DecodeError"
    by (simp add: NewDecoder_def)
  have b: "Decode_uint32 (NewDecoder [GobUint32 77, GobPeerName (PeerName 2), GobBytes [9]])
       = Inr (77, [GobPeerName (PeerName 2), GobBytes [9]])"
    by (simp add: NewDecoder_def)
  have c: "Decode_uint32 (NewDecoder [GobUint32 99, GobBytes [9]]) = Inr (99, [GobBytes [9]])"
    by (simp add: NewDecoder_def)
  have d: "Decode_uint32 (NewDecoder [GobUint32 99, GobPeerName (PeerName 2), GobBytes [3]])
       = Inr (99, [GobPeerName (PeerName 2), GobBytes [3]])"
    by (simp add: NewDecoder_def)
  have m77: "map_of (GossipChannels ex_router) 77 = None"
    by (simp add: ex_router_def)
  have m99: "map_of (GossipChannels ex_router) 99 = Some ex_channel"
    by (simp add: ex_router_def)
  have e: "deliverGossipBroadcast ex_channel (PeerName 2)
             [GobUint32 99, GobPeerName (PeerName 2), GobBytes [3]] [GobBytes [3]] ex_world
           = (None, ex_channel,
              ex_world\<lparr>logged :=
                [[LogString ''[gossip topology]:'',
                  LogString ''unable to relay broadcast from unknown peer'',
                  LogPeerName (PeerName 2)]]\<rparr>)"
    by (simp add: eval_defs ex_defs)
  have p: "put_channel ex_router 99 ex_channel = ex_router"
    by (simp add: put_channel_def ex_router_def)
  from handleGossip_dispatch [of "[]" max ex_Encode ex_router ProtocolGossip ex_world]
       handleGossip_dispatch [of "[GobUint32 77, GobPeerName (PeerName 2), GobBytes [9]]"
         max ex_Encode ex_router ProtocolGossip ex_world]
       handleGossip_dispatch [of "[GobUint32 99, GobBytes [9]]"
         max ex_Encode ex_router ProtocolGossip ex_world]
       handleGossip_dispatch [of "[GobUint32 99, GobPeerName (PeerName 2), GobBytes [3]]"
         max ex_Encode ex_router ProtocolGossip ex_world]
       a b c d m77 m99 e p
  show ?thesis by simp
qed

subsection \<open>C7: relayGossipUnicast drops silently or transmits\<close>

text \<open>
  C7. \<open>relayGossipUnicast\<close> returns nil for every destination and frame. With no
  route to the destination it logs one line and puts nothing on the wire; with a route
  but no connection to the next hop it logs one line and puts nothing on the wire;
  otherwise it hands the frame, unchanged and tagged \<open>ProtocolGossipUnicast\<close>, to
  \<open>SendProtocolMsg\<close> of the connection to the next hop, and logs nothing.
\<close>

theorem relayGossipUnicast_drops_or_sends:
  "fst (relayGossipUnicast c dst m w) = None
   \<and> (Routes_Unicast (ourself c) dst = None \<longrightarrow>
        snd (relayGossipUnicast c dst m w) =
          w\<lparr>logged := logged w @
             [[LogString (''[gossip '' @ name c @ '']:''),
               LogString ''unknown relay destination:'', LogPeerName dst]]\<rparr>)
   \<and> (\<forall>relay. Routes_Unicast (ourself c) dst = Some relay
          \<and> ConnectionTo (ourself c) relay = None \<longrightarrow>
        snd (relayGossipUnicast c dst m w) =
          w\<lparr>logged := logged w @
             [[LogString (''[gossip '' @ name c @ '']:''),
               LogString ''unable to find connection to relay peer'', LogPeerName relay]]\<rparr>)
   \<and> (\<forall>relay conn. Routes_Unicast (ourself c) dst = Some relay
          \<and> ConnectionTo (ourself c) relay = Some conn \<longrightarrow>
        snd (relayGossipUnicast c dst m w) =
          w\<lparr>wire := wire w @ [(conn, \<lparr>tag = ProtocolGossipUnicast, msg = m\<rparr>)]\<rparr>)"
  by (simp add: relayGossipUnicast_def log_def SendProtocolMsg_def)

theorem relayGossipUnicast_drops_or_sends_witness:
  "Routes_Unicast (ourself ex_channel) (PeerName 9) = None
   \<and> relayGossipUnicast ex_channel (PeerName 9) [GobUint32 99] ex_world =
       (None, \<lparr>heap = [], objects = (\<lambda>a. 0), fresh = 0, wire = [],
               logged = [[LogString ''[gossip topology]:'',
                          LogString ''unknown relay destination:'', LogPeerName (PeerName 9)]]\<rparr>)
   \<and> Routes_Unicast (ourself ex_channel) (PeerName 4) = Some (PeerName 5)
   \<and> ConnectionTo (ourself ex_channel) (PeerName 5) = None
   \<and> relayGossipUnicast ex_channel (PeerName 4) [GobUint32 99] ex_world =
       (None, \<lparr>heap = [], objects = (\<lambda>a. 0), fresh = 0, wire = [],
               logged = [[LogString ''[gossip topology]:'',
                          LogString ''unable to find connection to relay peer'',
                          LogPeerName (PeerName 5)]]\<rparr>)
   \<and> Routes_Unicast (ourself ex_channel) (PeerName 3) = Some (PeerName 2)
   \<and> ConnectionTo (ourself ex_channel) (PeerName 2) = Some (Connection 10)
   \<and> relayGossipUnicast ex_channel (PeerName 3) [GobUint32 99] ex_world =
       (None, \<lparr>heap = [], objects = (\<lambda>a. 0), fresh = 0,
               wire = [(Connection 10, \<lparr>tag = ProtocolGossipUnicast, msg = [GobUint32 99]\<rparr>)],
               logged = []\<rparr>)"
  using relayGossipUnicast_drops_or_sends [of ex_channel "PeerName 9" "[GobUint32 99]" ex_world]
        relayGossipUnicast_drops_or_sends [of ex_channel "PeerName 4" "[GobUint32 99]" ex_world]
        relayGossipUnicast_drops_or_sends [of ex_channel "PeerName 3" "[GobUint32 99]" ex_world]
  by (simp add: ex_channel_def ex_peer_def ex_world_def prod_eq_iff)

subsection \<open>C8: every outbound frame names its origin\<close>

text \<open>
  C8. \<open>GossipUnicast(dst, buf)\<close> hands \<open>relayGossipUnicast\<close> the encoding of
  (channel hash, our name, dst, buf), which is what goes to the connection when the
  route and the connection exist; \<open>GossipBroadcast(buf)\<close> hands
  \<open>relayGossipBroadcast\<close> the encoding of (channel hash, our name, buf), which goes
  out on every next hop; and the send function that \<open>sendGossipDown\<close> creates for a
  connection without a sender encodes (channel hash, our name, \<open>data.Encode()\<close>) and
  gives it, tagged \<open>ProtocolGossip\<close>, to \<open>SendProtocolMsg\<close> of that connection, as
  the next pass of the worker shows. In each of the three frames the field read after
  the channel hash is the name of the originating peer.
\<close>

theorem frames_name_the_origin:
  "GossipUnicast c dstPeerName buf w =
     relayGossipUnicast c dstPeerName
       (GobEncode [GobUint32 (hash c), GobPeerName (Name (ourself c)),
                   GobPeerName dstPeerName, GobBytes buf]) w
   \<and> (\<forall>relay conn. Routes_Unicast (ourself c) dstPeerName = Some relay
          \<and> ConnectionTo (ourself c) relay = Some conn \<longrightarrow>
        GossipUnicast c dstPeerName buf w =
          (None, w\<lparr>wire := wire w @
             [(conn, \<lparr>tag = ProtocolGossipUnicast,
                      msg = GobEncode [GobUint32 (hash c), GobPeerName (Name (ourself c)),
                                       GobPeerName dstPeerName, GobBytes buf]\<rparr>)]\<rparr>))
   \<and> GossipBroadcast c buf w =
     relayGossipBroadcast c (Name (ourself c))
       (GobEncode [GobUint32 (hash c), GobPeerName (Name (ourself c)), GobBytes buf]) w
   \<and> (\<forall>srcPeer. Peers_Fetch (ourself c) (Name (ourself c)) = Some srcPeer \<longrightarrow>
        GossipBroadcast c buf w =
          (None, w\<lparr>wire := wire w @
             map (\<lambda>conn. (conn, \<lparr>tag = ProtocolGossipBroadcast,
                      msg = GobEncode [GobUint32 (hash c), GobPeerName (Name (ourself c)),
                                       GobBytes buf]\<rparr>))
               (NextBroadcastHops (ourself c) srcPeer)\<rparr>))
   \<and> (map_of (senders c) conn = None \<longrightarrow>
        (\<exists>c1 w1.
           sendGossipDown Merge Encode c conn data w = Returns (c1, w1)
           \<and> map_of (senders c1) conn = Some (Some (length (heap w)))
           \<and> length (heap w1) = Suc (length (heap w))
           \<and> (\<forall>content. send (heap w1 ! length (heap w)) content =
                 (conn, \<lparr>tag = ProtocolGossip,
                         msg = GobEncode [GobUint32 (hash c), GobPeerName (Name (ourself c)),
                                          GobBytes (Encode content)]\<rparr>))
           \<and> wire (worker_pass (length (heap w)) w1) = wire w @
                 [(conn, \<lparr>tag = ProtocolGossip,
                          msg = GobEncode [GobUint32 (hash c), GobPeerName (Name (ourself c)),
                                           GobBytes (Encode (objects w data))]\<rparr>)]))
   \<and> header_of (GobEncode [GobUint32 (hash c), GobPeerName (Name (ourself c)),
                            GobPeerName dstPeerName, GobBytes buf])
       = Some (hash c, Name (ourself c))
   \<and> header_of (GobEncode [GobUint32 (hash c), GobPeerName (Name (ourself c)), GobBytes buf])
       = Some (hash c, Name (ourself c))
   \<and> header_of (GobEncode [GobUint32 (hash c), GobPeerName (Name (ourself c)),
                            GobBytes (Encode content)])
       = Some (hash c, Name (ourself c))"
proof -
  have sd: "\<exists>c1 w1.
           sendGossipDown Merge Encode c conn data w = Returns (c1, w1)
           \<and> map_of (senders c1) conn = Some (Some (length (heap w)))
           \<and> length (heap w1) = Suc (length (heap w))
           \<and> (\<forall>content. send (heap w1 ! length (heap w)) content =
                 (conn, \<lparr>tag = ProtocolGossip,
                         msg = GobEncode [GobUint32 (hash c), GobPeerName (Name (ourself c)),
                                          GobBytes (Encode content)]\<rparr>))
           \<and> wire (worker_pass (length (heap w)) w1) = wire w @
                 [(conn, \<lparr>tag = ProtocolGossip,
                          msg = GobEncode [GobUint32 (hash c), GobPeerName (Name (ourself c)),
                                           GobBytes (Encode (objects w data))]\<rparr>)]"
    if "map_of (senders c) conn = None"
    using that
    by (simp add: sendGossipDown_def Let_def on_sender_def Send_def Start_def
          NewGossipSender_def AList.update_conv' worker_pass_def run_pass_def)
  have gb: "GossipBroadcast c buf w =
          (None, w\<lparr>wire := wire w @
             map (\<lambda>conn. (conn, \<lparr>tag = ProtocolGossipBroadcast,
                      msg = GobEncode [GobUint32 (hash c), GobPeerName (Name (ourself c)),
                                       GobBytes buf]\<rparr>))
               (NextBroadcastHops (ourself c) srcPeer)\<rparr>)"
    if "Peers_Fetch (ourself c) (Name (ourself c)) = Some srcPeer" for srcPeer
    using that
    by (simp add: GossipBroadcast_def relayGossipBroadcast_def foldl_SendProtocolMsg)
  have gu: "GossipUnicast c dstPeerName buf w =
          (None, w\<lparr>wire := wire w @
             [(conn, \<lparr>tag = ProtocolGossipUnicast,
                      msg = GobEncode [GobUint32 (hash c), GobPeerName (Name (ourself c)),
                                       GobPeerName dstPeerName, GobBytes buf]\<rparr>)]\<rparr>)"
    if "Routes_Unicast (ourself c) dstPeerName = Some relay
          \<and> ConnectionTo (ourself c) relay = Some conn" for relay conn
    using that
    by (simp add: GossipUnicast_def relayGossipUnicast_def SendProtocolMsg_def)
  have u: "GossipUnicast c dstPeerName buf w =
     relayGossipUnicast c dstPeerName
       (GobEncode [GobUint32 (hash c), GobPeerName (Name (ourself c)),
                   GobPeerName dstPeerName, GobBytes buf]) w"
    by (simp add: GossipUnicast_def)
  have b: "GossipBroadcast c buf w =
     relayGossipBroadcast c (Name (ourself c))
       (GobEncode [GobUint32 (hash c), GobPeerName (Name (ourself c)), GobBytes buf]) w"
    by (simp add: GossipBroadcast_def)
  have h1: "header_of (GobEncode [GobUint32 (hash c), GobPeerName (Name (ourself c)),
                            GobPeerName dstPeerName, GobBytes buf])
       = Some (hash c, Name (ourself c))"
    by (simp add: header_of_def GobEncode_def NewDecoder_def)
  have h2: "header_of (GobEncode [GobUint32 (hash c), GobPeerName (Name (ourself c)), GobBytes buf])
       = Some (hash c, Name (ourself c))"
    by (simp add: header_of_def GobEncode_def NewDecoder_def)
  have h3: "header_of (GobEncode [GobUint32 (hash c), GobPeerName (Name (ourself c)),
                            GobBytes (Encode content)])
       = Some (hash c, Name (ourself c))"
    by (simp add: header_of_def GobEncode_def NewDecoder_def)
  from u gu b gb sd h1 h2 h3 show ?thesis
    by (intro conjI allI impI)
qed

theorem frames_name_the_origin_witness:
  "Routes_Unicast (ourself ex_channel) (PeerName 3) = Some (PeerName 2)
   \<and> ConnectionTo (ourself ex_channel) (PeerName 2) = Some (Connection 10)
   \<and> GossipUnicast ex_channel (PeerName 3) [7] ex_world =
       (None, ex_world\<lparr>wire :=
          [(Connection 10,
            \<lparr>tag = ProtocolGossipUnicast,
             msg = [GobUint32 99, GobPeerName (PeerName 1), GobPeerName (PeerName 3),
                    GobBytes [7]]\<rparr>)]\<rparr>)
   \<and> Peers_Fetch (ourself (ex_channel\<lparr>ourself := ex_peer\<lparr>Name := PeerName 7\<rparr>\<rparr>)) (PeerName 7)
       = Some (Peer 7)
   \<and> GossipBroadcast (ex_channel\<lparr>ourself := ex_peer\<lparr>Name := PeerName 7\<rparr>\<rparr>) [7] ex_world =
       (None, ex_world\<lparr>wire :=
          [(Connection 10,
            \<lparr>tag = ProtocolGossipBroadcast,
             msg = [GobUint32 99, GobPeerName (PeerName 7), GobBytes [7]]\<rparr>),
           (Connection 20,
            \<lparr>tag = ProtocolGossipBroadcast,
             msg = [GobUint32 99, GobPeerName (PeerName 7), GobBytes [7]]\<rparr>)]\<rparr>)
   \<and> map_of (senders ex_channel) (Connection 20) = None
   \<and> (\<exists>c1 w1.
        sendGossipDown max ex_Encode ex_channel (Connection 20) 1 ex_world2 = Returns (c1, w1)
        \<and> map_of (senders c1) (Connection 20) = Some (Some 2)
        \<and> send (heap w1 ! 2) 9 =
             (Connection 20,
              \<lparr>tag = ProtocolGossip,
               msg = [GobUint32 99, GobPeerName (PeerName 1), GobBytes [9]]\<rparr>)
        \<and> wire (worker_pass 2 w1) =
             [(Connection 20,
               \<lparr>tag = ProtocolGossip,
                msg = [GobUint32 99, GobPeerName (PeerName 1), GobBytes [9]]\<rparr>)])
   \<and> header_of [GobUint32 99, GobPeerName (PeerName 1), GobBytes [9]]
       = Some (99, PeerName 1)"
proof -
  have r: "Routes_Unicast (ourself ex_channel) (PeerName 3) = Some (PeerName 2)
           \<and> ConnectionTo (ourself ex_channel) (PeerName 2) = Some (Connection 10)"
    by (simp add: ex_defs)
  have f: "Peers_Fetch (ourself (ex_channel\<lparr>ourself := ex_peer\<lparr>Name := PeerName 7\<rparr>\<rparr>)) (PeerName 7)
       = Some (Peer 7)"
    by (simp add: ex_defs)
  have m: "map_of (senders ex_channel) (Connection 20) = None"
    by (simp add: ex_defs)
  note t1 = frames_name_the_origin [of ex_channel "PeerName 3" "[7]" ex_world "Connection 20"
              max ex_Encode 1 9]
  note t2 = frames_name_the_origin [of "ex_channel\<lparr>ourself := ex_peer\<lparr>Name := PeerName 7\<rparr>\<rparr>"
              "PeerName 3" "[7]" ex_world "Connection 20" max ex_Encode 1 9]
  note t3 = frames_name_the_origin [of ex_channel "PeerName 3" "[7]" ex_world2 "Connection 20"
              max ex_Encode 1 9]
  from t1 r have 1: "GossipUnicast ex_channel (PeerName 3) [7] ex_world =
       (None, ex_world\<lparr>wire :=
          [(Connection 10,
            \<lparr>tag = ProtocolGossipUnicast,
             msg = [GobUint32 99, GobPeerName (PeerName 1), GobPeerName (PeerName 3),
                    GobBytes [7]]\<rparr>)]\<rparr>)"
    by (simp add: ex_defs eval_defs)
  from t2 f have 2: "GossipBroadcast (ex_channel\<lparr>ourself := ex_peer\<lparr>Name := PeerName 7\<rparr>\<rparr>) [7] ex_world =
       (None, ex_world\<lparr>wire :=
          [(Connection 10,
            \<lparr>tag = ProtocolGossipBroadcast,
             msg = [GobUint32 99, GobPeerName (PeerName 7), GobBytes [7]]\<rparr>),
           (Connection 20,
            \<lparr>tag = ProtocolGossipBroadcast,
             msg = [GobUint32 99, GobPeerName (PeerName 7), GobBytes [7]]\<rparr>)]\<rparr>)"
    by (simp add: ex_defs eval_defs)
  from t3 m have 3: "\<exists>c1 w1.
        sendGossipDown max ex_Encode ex_channel (Connection 20) 1 ex_world2 = Returns (c1, w1)
        \<and> map_of (senders c1) (Connection 20) = Some (Some 2)
        \<and> send (heap w1 ! 2) 9 =
             (Connection 20,
              \<lparr>tag = ProtocolGossip,
               msg = [GobUint32 99, GobPeerName (PeerName 1), GobBytes [9]]\<rparr>)
        \<and> wire (worker_pass 2 w1) =
             [(Connection 20,
               \<lparr>tag = ProtocolGossip,
                msg = [GobUint32 99, GobPeerName (PeerName 1), GobBytes [9]]\<rparr>)]"
    by (simp add: ex_defs ex_world2_def eval_defs)
  from t1 have 4: "header_of [GobUint32 99, GobPeerName (PeerName 1), GobBytes [9]]
       = Some (99, PeerName 1)"
    by (simp add: ex_defs eval_defs)
  from r 1 f 2 m 3 4 show ?thesis by blast
qed

subsection \<open>C9: the registry of channels\<close>

lemma NewGossip_lookup:
  "map_of (GossipChannels (fst (NewGossip hash_of router channelName g))) k =
     (if k = hash_of channelName then Some (snd (NewGossip hash_of router channelName g))
      else map_of (GossipChannels router) k)"
  by (simp add: NewGossip_def Let_def AList.update_conv')

lemma register_all_Cons:
  "register_all hash_of router ((channelName, g) # regs) =
     (fst (register_all hash_of (fst (NewGossip hash_of router channelName g)) regs),
      snd (NewGossip hash_of router channelName g)
        # snd (register_all hash_of (fst (NewGossip hash_of router channelName g)) regs))"
  by (simp split: prod.splits)

lemma register_all_length:
  "length (snd (register_all hash_of router regs)) = length regs"
proof (induction regs arbitrary: router)
  case Nil
  then show ?case by simp
next
  case (Cons reg regs)
  obtain channelName g where "reg = (channelName, g)" by (cases reg)
  with Cons.IH show ?case by (simp only: register_all_Cons snd_conv list.size)
qed

lemma register_all_other:
  "k \<notin> hash_of ` fst ` set regs \<Longrightarrow>
   map_of (GossipChannels (fst (register_all hash_of router regs))) k =
     map_of (GossipChannels router) k"
proof (induction regs arbitrary: router)
  case Nil
  then show ?case by simp
next
  case (Cons reg regs)
  obtain channelName g where reg: "reg = (channelName, g)" by (cases reg)
  from Cons.prems reg have k: "k \<noteq> hash_of channelName" and r: "k \<notin> hash_of ` fst ` set regs"
    by auto
  from Cons.IH [OF r, of "fst (NewGossip hash_of router channelName g)"]
       NewGossip_lookup [of hash_of router channelName g k] k
  show ?case unfolding reg register_all_Cons by simp
qed

lemma register_all_nth:
  "i < length regs \<Longrightarrow>
   (\<forall>j. i < j \<and> j < length regs \<longrightarrow> hash_of (fst (regs ! j)) \<noteq> hash_of (fst (regs ! i))) \<Longrightarrow>
   map_of (GossipChannels (fst (register_all hash_of router regs))) (hash_of (fst (regs ! i)))
     = Some (snd (register_all hash_of router regs) ! i)
   \<and> name (snd (register_all hash_of router regs) ! i) = fst (regs ! i)
   \<and> hash (snd (register_all hash_of router regs) ! i) = hash_of (fst (regs ! i))
   \<and> gossiper (snd (register_all hash_of router regs) ! i) = snd (regs ! i)"
proof (induction regs arbitrary: router i)
  case Nil
  then show ?case by simp
next
  case (Cons reg regs)
  obtain channelName g where reg: "reg = (channelName, g)" by (cases reg)
  let ?r1 = "fst (NewGossip hash_of router channelName g)"
  let ?c = "snd (NewGossip hash_of router channelName g)"
  have unf: "register_all hash_of router (reg # regs) =
               (fst (register_all hash_of ?r1 regs), ?c # snd (register_all hash_of ?r1 regs))"
    unfolding reg by (rule register_all_Cons)
  show ?case
  proof (cases i)
    case 0
    have "hash_of channelName \<notin> hash_of ` fst ` set regs"
    proof
      assume "hash_of channelName \<in> hash_of ` fst ` set regs"
      then obtain x where x: "x \<in> set regs" "hash_of (fst x) = hash_of channelName" by auto
      then obtain j where j: "j < length regs" "regs ! j = x" by (auto simp: in_set_conv_nth)
      from Cons.prems(2) [rule_format, of "Suc j"] 0 j x reg show False by simp
    qed
    from register_all_other [OF this, of ?r1]
         NewGossip_lookup [of hash_of router channelName g "hash_of channelName"]
    show ?thesis using 0 reg unf by (simp add: NewGossip_def Let_def)
  next
    case (Suc i')
    with Cons.prems have i': "i' < length regs" by simp
    have later: "\<forall>j. i' < j \<and> j < length regs \<longrightarrow>
                   hash_of (fst (regs ! j)) \<noteq> hash_of (fst (regs ! i'))"
    proof (intro allI impI)
      fix j assume "i' < j \<and> j < length regs"
      with Cons.prems(2) [rule_format, of "Suc j"] Suc
      show "hash_of (fst (regs ! j)) \<noteq> hash_of (fst (regs ! i'))" by simp
    qed
    from Cons.IH [OF i' later, of ?r1] show ?thesis
      using Suc unf by simp
  qed
qed

text \<open>
  C9, as the claim states it, fails: \<open>NewGossip\<close> stores the new channel under the
  hash of its name whatever is there, so a second registration with the same hash
  (here the same name) replaces the first, and the channel registered first is no
  longer the one found under the hash of its name.
\<close>

theorem NewGossip_registry_counterexample:
  "name (snd (register_all ex_hash ex_router
          [(''a'', ex_gossiper), (''a'', ex_gossiper\<lparr>state := 6\<rparr>)]) ! 0) = ''a''
   \<and> map_of (GossipChannels (fst (register_all ex_hash ex_router
          [(''a'', ex_gossiper), (''a'', ex_gossiper\<lparr>state := 6\<rparr>)]))) (ex_hash ''a'')
       \<noteq> Some (snd (register_all ex_hash ex_router
                  [(''a'', ex_gossiper), (''a'', ex_gossiper\<lparr>state := 6\<rparr>)]) ! 0)
   \<and> map_of (GossipChannels (fst (register_all ex_hash ex_router
          [(''a'', ex_gossiper), (''a'', ex_gossiper\<lparr>state := 6\<rparr>)]))) (ex_hash ''a'')
       = Some (snd (register_all ex_hash ex_router
                  [(''a'', ex_gossiper), (''a'', ex_gossiper\<lparr>state := 6\<rparr>)]) ! 1)"
  by (simp add: NewGossip_def Let_def ex_router_def ex_hash_def ex_gossiper_def)

text \<open>
  C9, amended. Right after \<open>NewGossip(name, gossiper)\<close>, the registry holds the
  channel it returned under the hash of the name. After any sequence of registrations,
  a channel is found under the hash of its name, with the name and the gossiper it was
  registered with, provided no later registration of the sequence used a name with the
  same hash.
\<close>

theorem NewGossip_registers_last_wins:
  "map_of (GossipChannels (fst (NewGossip hash_of router channelName g))) (hash_of channelName)
     = Some (snd (NewGossip hash_of router channelName g))
   \<and> (register_all hash_of router regs = (router', channels) \<and> i < length regs
        \<and> (\<forall>j. i < j \<and> j < length regs \<longrightarrow>
               hash_of (fst (regs ! j)) \<noteq> hash_of (fst (regs ! i))) \<longrightarrow>
      map_of (GossipChannels router') (hash_of (fst (regs ! i))) = Some (channels ! i)
      \<and> name (channels ! i) = fst (regs ! i)
      \<and> hash (channels ! i) = hash_of (fst (regs ! i))
      \<and> gossiper (channels ! i) = snd (regs ! i))"
proof -
  have 1: "map_of (GossipChannels (fst (NewGossip hash_of router channelName g)))
             (hash_of channelName)
     = Some (snd (NewGossip hash_of router channelName g))"
    by (simp add: NewGossip_lookup)
  have 2: "map_of (GossipChannels router') (hash_of (fst (regs ! i))) = Some (channels ! i)
      \<and> name (channels ! i) = fst (regs ! i)
      \<and> hash (channels ! i) = hash_of (fst (regs ! i))
      \<and> gossiper (channels ! i) = snd (regs ! i)"
    if h: "register_all hash_of router regs = (router', channels) \<and> i < length regs
        \<and> (\<forall>j. i < j \<and> j < length regs \<longrightarrow>
               hash_of (fst (regs ! j)) \<noteq> hash_of (fst (regs ! i)))"
  proof -
    from h have "router' = fst (register_all hash_of router regs)"
      and "channels = snd (register_all hash_of router regs)"
      by simp_all
    with register_all_nth [of i regs hash_of router] h show ?thesis
      by blast
  qed
  from 1 2 show ?thesis by blast
qed

theorem NewGossip_registers_last_wins_witness:
  "(\<exists>router' c1 c2 c3.
     register_all ex_hash ex_router
       [(''a'', ex_gossiper), (''bc'', ex_gossiper\<lparr>state := 6\<rparr>), (''a'', ex_gossiper\<lparr>state := 7\<rparr>)]
       = (router', [c1, c2, c3])
     \<and> map_of (GossipChannels router') (ex_hash ''bc'') = Some c2
     \<and> name c2 = ''bc'' \<and> state (gossiper c2) = 6
     \<and> map_of (GossipChannels router') (ex_hash ''a'') = Some c3
     \<and> state (gossiper c3) = 7)
   \<and> ex_hash ''a'' \<noteq> ex_hash ''bc''"
proof -
  let ?regs = "[(''a'', ex_gossiper), (''bc'', ex_gossiper\<lparr>state := 6\<rparr>),
                (''a'', ex_gossiper\<lparr>state := 7\<rparr>)]"
  obtain router' channels where r: "register_all ex_hash ex_router ?regs = (router', channels)"
    by (cases "register_all ex_hash ex_router ?regs")
  have h: "ex_hash ''a'' \<noteq> ex_hash ''bc''" by (simp add: ex_hash_def)
  have l1: "\<forall>j. 1 < j \<and> j < length ?regs \<longrightarrow>
              ex_hash (fst (?regs ! j)) \<noteq> ex_hash (fst (?regs ! 1))"
  proof (intro allI impI)
    fix j assume "1 < j \<and> j < length ?regs"
    then have "j = 2" by auto
    then show "ex_hash (fst (?regs ! j)) \<noteq> ex_hash (fst (?regs ! 1))"
      using h by simp
  qed
  have l2: "\<forall>j. 2 < j \<and> j < length ?regs \<longrightarrow>
              ex_hash (fst (?regs ! j)) \<noteq> ex_hash (fst (?regs ! 2))"
    by auto
  from NewGossip_registers_last_wins [of ex_hash ex_router "''a''" ex_gossiper ?regs router' channels 1]
       r l1
  have 1: "map_of (GossipChannels router') (ex_hash ''bc'') = Some (channels ! 1)
           \<and> name (channels ! 1) = ''bc'' \<and> gossiper (channels ! 1) = ex_gossiper\<lparr>state := 6\<rparr>"
    by simp
  from NewGossip_registers_last_wins [of ex_hash ex_router "''a''" ex_gossiper ?regs router' channels 2]
       r l2
  have 2: "map_of (GossipChannels router') (ex_hash ''a'') = Some (channels ! 2)
           \<and> gossiper (channels ! 2) = ex_gossiper\<lparr>state := 7\<rparr>"
    by simp
  from r have "length channels = 3"
    using register_all_length [of ex_hash ex_router ?regs] by simp
  then obtain c1 c2 c3 where c: "channels = [c1, c2, c3]"
    by (auto simp: length_Suc_conv numeral_3_eq_3)
  with 1 2 r h show ?thesis by auto
qed

subsection \<open>C10: the public operations never surface an error\<close>

text \<open>
  C10. \<open>GossipUnicast\<close> and \<open>GossipBroadcast\<close> return nil for every destination and
  payload, because \<open>relayGossipUnicast\<close> and \<open>relayGossipBroadcast\<close> return nil on
  every path.
\<close>

theorem gossip_calls_return_nil:
  "fst (GossipUnicast c dst buf w) = None
   \<and> fst (GossipBroadcast c buf w) = None
   \<and> fst (relayGossipUnicast c dst m w) = None
   \<and> fst (relayGossipBroadcast c src m w) = None"
  by (simp add: GossipUnicast_def GossipBroadcast_def relayGossipUnicast_def
        relayGossipBroadcast_def)

end
